theory Spec2Isabelle
  imports Main
begin

section \<open>JavaScript values, AST nodes and contexts\<close>

text \<open>
  An \<open>ASTNode\<close> object is identified by its reference; two nodes are the same node
  (\<^verbatim>\<open>===\<close>) exactly when their references are equal. An \<open>ASTContext\<close> object is
  identified the same way.
\<close>

type_synonym ref = nat
type_synonym cref = nat

text \<open>
  The values a property of a node can hold at run time. \<open>VMap\<close> is a JavaScript
  \<open>Map\<close> with string keys (insertion order kept), \<open>VObj\<close> a plain object (own
  enumerable properties in order, keys distinct).
\<close>

datatype jsval =
    VUndefined
  | VNull
  | VBool bool
  | VNum int
  | VStr string
  | VNode ref
  | VArr "jsval list"
  | VMap "(string \<times> jsval) list"
  | VObj "(string \<times> jsval) list"

text \<open>
  The class of a node is the name of its constructor (the \<open>type\<close> attribute of the
  source, \<^verbatim>\<open>node.constructor.name\<close>). No concrete node class extends another one,
  so \<^verbatim>\<open>node instanceof K\<close> for a concrete class \<open>K\<close> is the test that the node's
  class name is \<open>K\<close>.
\<close>

type_synonym node_kind = string

text \<open>
  A node. \<open>nid\<close>, \<open>parent\<close> and \<open>nodeContext\<close> are the universal attributes \<open>id\<close>,
  \<open>parent\<close> and \<open>context\<close>; \<open>children\<close> is what the node's \<open>children\<close> getter returns
  (the private \<open>ownChildren\<close> list of a container such as \<open>ContractDefinition\<close>).
  \<open>docString\<close>, \<open>scope\<close>, \<open>linearizedBaseContracts\<close> and \<open>usedErrors\<close> are the stored
  fields of \<open>ContractDefinition\<close> that its accessors read and write (\<open>docString\<close> is
  \<open>VUndefined\<close> until a value is stored). Every other property, stored or computed by
  a getter, is given by \<open>props\<close> (an absent property is \<open>VUndefined\<close>). The checker
  only reads these values, so a statement about all stores covers whatever the getters
  of the other classes compute, among them \<open>children\<close> and \<open>vScope\<close> of
  \<open>ErrorDefinition\<close>.
\<close>

record node =
  nid :: int
  kind :: node_kind
  parent :: "ref option"
  nodeContext :: "cref option"
  children :: "ref list"
  docString :: jsval
  scope :: int
  linearizedBaseContracts :: "int list"
  usedErrors :: "int list"
  props :: "string \<Rightarrow> jsval"

text \<open>
  The object store: the node behind every reference, and for every context its
  \<open>id \<rightarrow> node\<close> map.
\<close>

record heap =
  nodes :: "ref \<Rightarrow> node"
  ctxs :: "cref \<Rightarrow> int \<Rightarrow> ref option"

text \<open>
  Compiler output is parsed JSON. A number is never inspected by the functions
  modelled here, so integers stand for all numbers. An object is the list of its
  properties in order (keys distinct); an absent property reads as \<open>undefined\<close>,
  which is \<open>None\<close> of \<open>json option\<close>.
\<close>

datatype json =
    JNull
  | JBool bool
  | JNum int
  | JStr string
  | JArr "json list"
  | JObj "(string \<times> json) list"

subsection \<open>Errors\<close>

text \<open>
  What an exception reports: the offending node, the property and, for arrays and maps,
  the position, as the messages of the source do.
\<close>

datatype problem =
    ChildInDifferentContext ref
  | WrongParent ref ref "ref option"
  | ExportedSymbolMissing string jsval
  | ExportedSymbolMismatch string jsval
  | SymbolAliasesLengthMismatch ref
  | ImportedSymbolNotInContext ref jsval
  | ScopeAndParentDiffer ref
  | PropertyNotInContext ref string
  | PropertyElementNotNode ref string nat
  | PropertyElementNotInContext ref string nat
  | PropertyNotNode ref string
  | ViewNotNode ref string string
  | FieldDiffersFromView ref string string
  | ViewNotArray ref string string
  | LengthsDiffer ref string string
  | FieldElementNotNumber ref string nat
  | ViewElementNotNode ref string nat
  | FieldElementDiffersFromView ref string nat
  | FieldNotNumberOrArray ref string
  | NotDirectChild ref string ref
  | NotDirectChildAt ref string nat ref
  | NotDirectChildAtKey ref string string ref
  | ArrayContainsNonNode ref string
  | MapContainsNonNode ref string
  | NeitherNodeNorArray ref string
  | ChildrenNotCovered ref "string list" "ref option"
  | UnknownNodeType ref
  | ContextNotSet ref
  | NotInCurrentContext ref
  | NotAChild ref ref
  | DuplicateId int
  | NotIterable
  | NoSuchProperty
  | InOperatorOnPrimitive
  | PropertyOfNull
  | RequiredPropertiesNotFound string
  | NoConsistentAstOrSource
  | CompilerNotFound string

text \<open>
  The exceptions of the program: \<open>InsaneASTError\<close> (a subclass of \<open>Error\<close>), a plain
  \<open>Error\<close>, the \<open>TypeError\<close> and \<open>RangeError\<close> (stack exhaustion) of the run time, and
  \<open>CompileFailedError\<close> with its list of failures (compiler version, detected errors).
\<close>

datatype error =
    InsaneASTError problem
  | Error problem
  | TypeError problem
  | RangeError
  | CompileFailedError "(string option \<times> json option list) list"

subsection \<open>Context operations\<close>

text \<open>
  Modelled from the spec: \<open>ASTContext.locate\<close> and \<open>ASTContext.contains\<close> are not among
  the sources; section 4.1 gives \<open>lookup(id) \<rightarrow> Option<node>\<close> on the map from id to
  node, and \<open>contains(node)\<close> as the membership predicate: the node registered under
  the node's id is this very node.
\<close>

definition locate :: "heap \<Rightarrow> cref \<Rightarrow> int \<Rightarrow> ref option" where
  "locate h c i = ctxs h c i"

definition contains :: "heap \<Rightarrow> cref \<Rightarrow> ref \<Rightarrow> bool" where
  "contains h c r = (locate h c (nid (nodes h r)) = Some r)"

text \<open>
  Modelled from the spec: the getter \<open>ASTNode.requiredContext\<close> is not among the
  sources; section 4.1 says a node holds a handle to its context and may be detached.
  The getter returns the context of an attached node and throws for a detached one.
\<close>

definition requiredContext :: "heap \<Rightarrow> ref \<Rightarrow> error + cref" where
  "requiredContext h r =
     (case nodeContext (nodes h r) of
        None \<Rightarrow> Inl (Error (ContextNotSet r))
      | Some c \<Rightarrow> Inr c)"

text \<open>A possibly absent node as a JavaScript value: \<open>undefined\<close> when absent.\<close>

definition nodeOrUndefined :: "ref option \<Rightarrow> jsval" where
  "nodeOrUndefined x = (case x of None \<Rightarrow> VUndefined | Some r \<Rightarrow> VNode r)"

text \<open>\<^verbatim>\<open>v instanceof K\<close> for a concrete node class \<open>K\<close>.\<close>

definition instanceOf :: "heap \<Rightarrow> jsval \<Rightarrow> node_kind \<Rightarrow> bool" where
  "instanceOf h v k = (case v of VNode r \<Rightarrow> kind (nodes h r) = k | _ \<Rightarrow> False)"

text \<open>JavaScript truthiness, as \<^verbatim>\<open>Array.prototype.find\<close> applies it to a predicate's result.\<close>

fun truthy :: "jsval \<Rightarrow> bool" where
  "truthy VUndefined = False"
| "truthy VNull = False"
| "truthy (VBool b) = b"
| "truthy (VNum i) = (i \<noteq> 0)"
| "truthy (VStr s) = (s \<noteq> [])"
| "truthy _ = True"


section \<open>The accessors of \<open>ContractDefinition\<close>\<close>

text \<open>
  The getter \<open>documentation\<close>: the stored string when there is one, otherwise the first
  \<open>StructuredDocumentation\<close> among the own children, otherwise \<open>undefined\<close>.
\<close>

definition documentation :: "heap \<Rightarrow> ref \<Rightarrow> jsval" where
  "documentation h r =
     (if docString (nodes h r) \<noteq> VUndefined then docString (nodes h r)
      else nodeOrUndefined
             (find (\<lambda>c. kind (nodes h c) = ''StructuredDocumentation'')
                (children (nodes h r))))"

text \<open>The getters \<open>vScope\<close>, \<open>vLinearizedBaseContracts\<close> and \<open>vUsedErrors\<close>.\<close>

definition vScope :: "heap \<Rightarrow> ref \<Rightarrow> error + jsval" where
  "vScope h r =
     (case requiredContext h r of
        Inl e \<Rightarrow> Inl e
      | Inr c \<Rightarrow> Inr (nodeOrUndefined (locate h c (scope (nodes h r)))))"

definition vLinearizedBaseContracts :: "heap \<Rightarrow> ref \<Rightarrow> error + jsval list" where
  "vLinearizedBaseContracts h r =
     (case requiredContext h r of
        Inl e \<Rightarrow> Inl e
      | Inr c \<Rightarrow>
          Inr (map (\<lambda>i. nodeOrUndefined (locate h c i)) (linearizedBaseContracts (nodes h r))))"

definition vUsedErrors :: "heap \<Rightarrow> ref \<Rightarrow> error + jsval list" where
  "vUsedErrors h r =
     (case requiredContext h r of
        Inl e \<Rightarrow> Inl e
      | Inr c \<Rightarrow> Inr (map (\<lambda>i. nodeOrUndefined (locate h c i)) (usedErrors (nodes h r))))"

text \<open>
  The getters that filter the own children by class (\<open>vInheritanceSpecifiers\<close>,
  \<open>vStateVariables\<close>, \<open>vModifiers\<close>, \<open>vEvents\<close>, \<open>vErrors\<close>, \<open>vFunctions\<close>,
  \<open>vUsingForDirectives\<close>, \<open>vStructs\<close>, \<open>vEnums\<close>, \<open>vUserDefinedValueTypes\<close>).
\<close>

definition ownChildrenOfKind :: "heap \<Rightarrow> ref \<Rightarrow> node_kind \<Rightarrow> ref list" where
  "ownChildrenOfKind h r k = filter (\<lambda>c. kind (nodes h c) = k) (children (nodes h r))"

text \<open>
  The getter \<open>vConstructor\<close>: the first function of the contract whose \<open>isConstructor\<close>
  property is truthy.
\<close>

definition vConstructor :: "heap \<Rightarrow> ref \<Rightarrow> jsval" where
  "vConstructor h r =
     nodeOrUndefined
       (find (\<lambda>f. truthy (props (nodes h f) ''isConstructor''))
          (ownChildrenOfKind h r ''FunctionDefinition''))"

text \<open>
  Reading a property by name, \<^verbatim>\<open>node[field]\<close>. For a \<open>ContractDefinition\<close> the
  properties below are the fields and getters of the class; a getter may throw.
\<close>

definition contractField :: "heap \<Rightarrow> ref \<Rightarrow> string \<Rightarrow> error + jsval" where
  "contractField h r f =
     (if f = ''documentation'' then Inr (documentation h r)
      else if f = ''scope'' then Inr (VNum (scope (nodes h r)))
      else if f = ''vScope'' then vScope h r
      else if f = ''linearizedBaseContracts''
        then Inr (VArr (map VNum (linearizedBaseContracts (nodes h r))))
      else if f = ''vLinearizedBaseContracts''
        then (case vLinearizedBaseContracts h r of Inl e \<Rightarrow> Inl e | Inr vs \<Rightarrow> Inr (VArr vs))
      else if f = ''usedErrors'' then Inr (VArr (map VNum (usedErrors (nodes h r))))
      else if f = ''vUsedErrors''
        then (case vUsedErrors h r of Inl e \<Rightarrow> Inl e | Inr vs \<Rightarrow> Inr (VArr vs))
      else if f = ''vInheritanceSpecifiers''
        then Inr (VArr (map VNode (ownChildrenOfKind h r ''InheritanceSpecifier'')))
      else if f = ''vStateVariables''
        then Inr (VArr (map VNode (ownChildrenOfKind h r ''VariableDeclaration'')))
      else if f = ''vModifiers''
        then Inr (VArr (map VNode (ownChildrenOfKind h r ''ModifierDefinition'')))
      else if f = ''vEvents''
        then Inr (VArr (map VNode (ownChildrenOfKind h r ''EventDefinition'')))
      else if f = ''vErrors''
        then Inr (VArr (map VNode (ownChildrenOfKind h r ''ErrorDefinition'')))
      else if f = ''vFunctions''
        then Inr (VArr (map VNode (ownChildrenOfKind h r ''FunctionDefinition'')))
      else if f = ''vUsingForDirectives''
        then Inr (VArr (map VNode (ownChildrenOfKind h r ''UsingForDirective'')))
      else if f = ''vStructs''
        then Inr (VArr (map VNode (ownChildrenOfKind h r ''StructDefinition'')))
      else if f = ''vEnums''
        then Inr (VArr (map VNode (ownChildrenOfKind h r ''EnumDefinition'')))
      else if f = ''vUserDefinedValueTypes''
        then Inr (VArr (map VNode (ownChildrenOfKind h r ''UserDefinedValueTypeDefinition'')))
      else if f = ''vConstructor'' then Inr (vConstructor h r)
      else Inr (props (nodes h r) f))"

definition getField :: "heap \<Rightarrow> ref \<Rightarrow> string \<Rightarrow> error + jsval" where
  "getField h r f =
     (if kind (nodes h r) = ''ContractDefinition'' then contractField h r f
      else Inr (props (nodes h r) f))"

section \<open>The sanity checker\<close>

subsection \<open>\<open>inCtx\<close>\<close>

text \<open>
  \<open>inCtx(arg, ctx)\<close>: a node is asked of the context; anything else is iterated with
  \<^verbatim>\<open>for ... of\<close>, stopping with \<open>false\<close> at the first element that is not in the
  context. Iterating \<open>undefined\<close>, \<open>null\<close>, a boolean, a number or a plain object is a
  \<open>TypeError\<close>; a non-empty string yields one-character strings for ever (stack
  exhaustion); a \<open>Map\<close> yields its \<open>[key, value]\<close> pairs.
\<close>

fun inCtx :: "heap \<Rightarrow> cref \<Rightarrow> jsval \<Rightarrow> error + bool"
  and inCtxAll :: "heap \<Rightarrow> cref \<Rightarrow> jsval list \<Rightarrow> error + bool"
  and inCtxEntries :: "heap \<Rightarrow> cref \<Rightarrow> (string \<times> jsval) list \<Rightarrow> error + bool"
where
  "inCtx h c (VNode r) = Inr (contains h c r)"
| "inCtx h c (VArr xs) = inCtxAll h c xs"
| "inCtx h c (VMap kvs) = inCtxEntries h c kvs"
| "inCtx h c (VStr s) = (if s = [] then Inr True else Inl RangeError)"
| "inCtx h c VUndefined = Inl (TypeError NotIterable)"
| "inCtx h c VNull = Inl (TypeError NotIterable)"
| "inCtx h c (VBool b) = Inl (TypeError NotIterable)"
| "inCtx h c (VNum i) = Inl (TypeError NotIterable)"
| "inCtx h c (VObj kvs) = Inl (TypeError NotIterable)"
| "inCtxAll h c [] = Inr True"
| "inCtxAll h c (x # xs) =
     (case inCtx h c x of
        Inl e \<Rightarrow> Inl e
      | Inr b \<Rightarrow> if b then inCtxAll h c xs else Inr False)"
| "inCtxEntries h c [] = Inr True"
| "inCtxEntries h c (kv # kvs) =
     (if fst kv \<noteq> [] then Inl RangeError
      else case inCtx h c (snd kv) of
        Inl e \<Rightarrow> Inl e
      | Inr b \<Rightarrow> if b then inCtxEntries h c kvs else Inr False)"

subsection \<open>\<open>checkVFieldCtx\<close>\<close>

text \<open>
  The loop over an array property: every element must be a node, and at every index
  the whole array is asked of the context again, as the source does.
\<close>

fun checkVFieldCtxLoop ::
  "heap \<Rightarrow> cref \<Rightarrow> ref \<Rightarrow> string \<Rightarrow> jsval list \<Rightarrow> nat \<Rightarrow> jsval list \<Rightarrow> error + unit" where
  "checkVFieldCtxLoop h c r prop val idx [] = Inr ()"
| "checkVFieldCtxLoop h c r prop val idx (el # els) =
     (case el of
        VNode n \<Rightarrow>
          (case inCtx h c (VArr val) of
             Inl e \<Rightarrow> Inl e
           | Inr b \<Rightarrow>
               if b then checkVFieldCtxLoop h c r prop val (Suc idx) els
               else Inl (Error (PropertyElementNotInContext r prop idx)))
      | _ \<Rightarrow> Inl (Error (PropertyElementNotNode r prop idx)))"

definition checkVFieldCtx :: "heap \<Rightarrow> cref \<Rightarrow> ref \<Rightarrow> string \<Rightarrow> error + unit" where
  "checkVFieldCtx h c r prop =
     (case getField h r prop of
        Inl e \<Rightarrow> Inl e
      | Inr val \<Rightarrow>
          (case val of
             VNode n \<Rightarrow>
               if contains h c n then Inr () else Inl (Error (PropertyNotInContext r prop))
           | VArr els \<Rightarrow> checkVFieldCtxLoop h c r prop els 0 els
           | _ \<Rightarrow> Inl (Error (PropertyNotNode r prop))))"

subsection \<open>\<open>checkFieldAndVFieldMatch\<close>\<close>

fun matchLoop ::
  "heap \<Rightarrow> ref \<Rightarrow> string \<Rightarrow> string \<Rightarrow> nat \<Rightarrow> jsval list \<Rightarrow> jsval list \<Rightarrow> error + unit" where
  "matchLoop h r field vField idx (el1 # xs) (el2 # ys) =
     (case el1 of
        VNum i \<Rightarrow>
          (case el2 of
             VNode n \<Rightarrow>
               if i \<noteq> nid (nodes h n)
               then Inl (InsaneASTError (FieldElementDiffersFromView r field idx))
               else matchLoop h r field vField (Suc idx) xs ys
           | _ \<Rightarrow> Inl (Error (ViewElementNotNode r vField idx)))
      | _ \<Rightarrow> Inl (Error (FieldElementNotNumber r field idx)))"
| "matchLoop h r field vField idx xs ys = Inr ()"

definition checkFieldAndVFieldMatch :: "heap \<Rightarrow> ref \<Rightarrow> string \<Rightarrow> string \<Rightarrow> error + unit" where
  "checkFieldAndVFieldMatch h r field vField =
     (case getField h r field of
        Inl e \<Rightarrow> Inl e
      | Inr val1 \<Rightarrow>
          (case getField h r vField of
             Inl e \<Rightarrow> Inl e
           | Inr val2 \<Rightarrow>
               (case val1 of
                  VNum i \<Rightarrow>
                    (case val2 of
                       VNode n \<Rightarrow>
                         if i \<noteq> nid (nodes h n)
                         then Inl (InsaneASTError (FieldDiffersFromView r field vField))
                         else Inr ()
                     | _ \<Rightarrow> Inl (Error (ViewNotNode r field vField)))
                | VArr xs \<Rightarrow>
                    (case val2 of
                       VArr ys \<Rightarrow>
                         if length xs \<noteq> length ys
                         then Inl (InsaneASTError (LengthsDiffer r field vField))
                         else matchLoop h r field vField 0 xs ys
                     | _ \<Rightarrow> Inl (Error (ViewNotArray r field vField)))
                | _ \<Rightarrow> Inl (Error (FieldNotNumberOrArray r field)))))"


subsection \<open>\<open>checkDirectChildren\<close>\<close>

text \<open>
  The nodes a field contributes to \<open>computedChildren\<close>. \<open>null\<close> entries of an array or
  a map are skipped; a node that is not a direct child is a sanity error naming the
  field, the position and the node.
\<close>

fun collectArray ::
  "ref \<Rightarrow> string \<Rightarrow> ref list \<Rightarrow> nat \<Rightarrow> jsval list \<Rightarrow> error + ref list" where
  "collectArray r field direct i [] = Inr []"
| "collectArray r field direct i (el # els) =
     (case el of
        VNull \<Rightarrow> collectArray r field direct (Suc i) els
      | VNode n \<Rightarrow>
          if n \<notin> set direct then Inl (InsaneASTError (NotDirectChildAt r field i n))
          else (case collectArray r field direct (Suc i) els of
                  Inl e \<Rightarrow> Inl e
                | Inr ns \<Rightarrow> Inr (n # ns))
      | _ \<Rightarrow> Inl (Error (ArrayContainsNonNode r field)))"

fun collectMap ::
  "ref \<Rightarrow> string \<Rightarrow> ref list \<Rightarrow> (string \<times> jsval) list \<Rightarrow> error + ref list" where
  "collectMap r field direct [] = Inr []"
| "collectMap r field direct (kv # kvs) =
     (case snd kv of
        VNull \<Rightarrow> collectMap r field direct kvs
      | VNode n \<Rightarrow>
          if n \<notin> set direct then Inl (InsaneASTError (NotDirectChildAtKey r field (fst kv) n))
          else (case collectMap r field direct kvs of
                  Inl e \<Rightarrow> Inl e
                | Inr ns \<Rightarrow> Inr (n # ns))
      | _ \<Rightarrow> Inl (Error (MapContainsNonNode r field)))"

definition collectField :: "heap \<Rightarrow> ref \<Rightarrow> ref list \<Rightarrow> string \<Rightarrow> error + ref list" where
  "collectField h r direct field =
     (case getField h r field of
        Inl e \<Rightarrow> Inl e
      | Inr val \<Rightarrow>
          (case val of
             VUndefined \<Rightarrow> Inr []
           | VNode n \<Rightarrow>
               if n \<notin> set direct then Inl (InsaneASTError (NotDirectChild r field n))
               else Inr [n]
           | VArr els \<Rightarrow> collectArray r field direct 0 els
           | VMap kvs \<Rightarrow> collectMap r field direct kvs
           | _ \<Rightarrow> Inl (Error (NeitherNodeNorArray r field))))"

fun collectFields :: "heap \<Rightarrow> ref \<Rightarrow> ref list \<Rightarrow> string list \<Rightarrow> error + ref list" where
  "collectFields h r direct [] = Inr []"
| "collectFields h r direct (f # fs) =
     (case collectField h r direct f of
        Inl e \<Rightarrow> Inl e
      | Inr ns \<Rightarrow>
          (case collectFields h r direct fs of
             Inl e \<Rightarrow> Inl e
           | Inr ms \<Rightarrow> Inr (ns @ ms)))"

text \<open>
  \<open>checkDirectChildren(node, ...fields)\<close>. The two \<open>Set\<close>s are compared by size; the
  child reported missing is the first direct child that no field mentions.
\<close>

definition checkDirectChildren :: "heap \<Rightarrow> ref \<Rightarrow> string list \<Rightarrow> error + unit" where
  "checkDirectChildren h r fieldNames =
     (let direct = children (nodes h r) in
      case collectFields h r direct fieldNames of
        Inl e \<Rightarrow> Inl e
      | Inr computed \<Rightarrow>
          if length (remdups computed) < length (remdups direct)
          then Inl (InsaneASTError
                 (ChildrenNotCovered r fieldNames (find (\<lambda>c. c \<notin> set computed) direct)))
          else Inr ())"

subsection \<open>\<open>checkSane\<close>\<close>

text \<open>Statements in sequence: the first exception ends the run.\<close>

fun seqE :: "(error + unit) list \<Rightarrow> error + unit" where
  "seqE [] = Inr ()"
| "seqE (x # xs) = (case x of Inl e \<Rightarrow> Inl e | Inr u \<Rightarrow> seqE xs)"

text \<open>The loop over the immediate children: each child's \<open>parent\<close> must be the node.\<close>

fun checkParents :: "heap \<Rightarrow> ref \<Rightarrow> ref list \<Rightarrow> error + unit" where
  "checkParents h r [] = Inr ()"
| "checkParents h r (child # cs) =
     (if parent (nodes h child) \<noteq> Some r
      then Inl (InsaneASTError (WrongParent child r (parent (nodes h child))))
      else checkParents h r cs)"

text \<open>The loop over \<open>exportedSymbols\<close> of a source unit.\<close>

fun checkExportedSymbols ::
  "heap \<Rightarrow> cref \<Rightarrow> ref \<Rightarrow> (string \<times> jsval) list \<Rightarrow> error + unit" where
  "checkExportedSymbols h c r [] = Inr ()"
| "checkExportedSymbols h c r (entry # entries) =
     (case (case snd entry of VNum i \<Rightarrow> locate h c i | _ \<Rightarrow> None) of
        None \<Rightarrow> Inl (InsaneASTError (ExportedSymbolMissing (fst entry) (snd entry)))
      | Some symNode \<Rightarrow>
          (case getField h r ''vExportedSymbols'' of
             Inl e \<Rightarrow> Inl e
           | Inr (VMap m) \<Rightarrow>
               if map_of m (fst entry) \<noteq> Some (VNode symNode)
               then Inl (InsaneASTError (ExportedSymbolMismatch (fst entry) (snd entry)))
               else checkExportedSymbols h c r entries
           | Inr _ \<Rightarrow> Inl (TypeError NoSuchProperty)))"

text \<open>The loop over \<open>vSymbolAliases\<close> of an import: \<open>vSymbolAliases[i][0]\<close> must be in the context.\<close>

fun checkSymbolAliases :: "heap \<Rightarrow> cref \<Rightarrow> ref \<Rightarrow> jsval list \<Rightarrow> error + unit" where
  "checkSymbolAliases h c r [] = Inr ()"
| "checkSymbolAliases h c r (a # as) =
     (case a of
        VArr pair \<Rightarrow>
          (let def = (case pair of [] \<Rightarrow> VUndefined | d # rest \<Rightarrow> d) in
           case inCtx h c def of
             Inl e \<Rightarrow> Inl e
           | Inr b \<Rightarrow>
               if b then checkSymbolAliases h c r as
               else Inl (InsaneASTError (ImportedSymbolNotInContext r def)))
      | _ \<Rightarrow> Inl (TypeError NoSuchProperty))"

definition checkImportAliases :: "heap \<Rightarrow> cref \<Rightarrow> ref \<Rightarrow> error + unit" where
  "checkImportAliases h c r =
     (case getField h r ''vSymbolAliases'' of
        Inl e \<Rightarrow> Inl e
      | Inr (VArr vs) \<Rightarrow>
          (case (if length vs = 0 then Inr (VArr []) else getField h r ''symbolAliases'') of
             Inl e \<Rightarrow> Inl e
           | Inr (VArr ss) \<Rightarrow>
               if length vs \<noteq> 0 \<and> length vs \<noteq> length ss
               then Inl (InsaneASTError (SymbolAliasesLengthMismatch r))
               else checkSymbolAliases h c r vs
           | Inr _ \<Rightarrow> Inl (TypeError NoSuchProperty))
      | Inr _ \<Rightarrow> Inl (TypeError NoSuchProperty))"

text \<open>\<^verbatim>\<open>node.documentation instanceof StructuredDocumentation\<close>.\<close>

definition isStructuredDoc :: "heap \<Rightarrow> ref \<Rightarrow> bool" where
  "isStructuredDoc h r =
     (case getField h r ''documentation'' of
        Inl e \<Rightarrow> False
      | Inr v \<Rightarrow> instanceOf h v ''StructuredDocumentation'')"

text \<open>
  The field list after the conditional \<^verbatim>\<open>fields.push("documentation")\<close>, and the
  \<open>checkVFieldCtx\<close> on the documentation that goes with it.
\<close>

definition withDoc :: "heap \<Rightarrow> ref \<Rightarrow> string list \<Rightarrow> string list" where
  "withDoc h r fieldNames =
     (if isStructuredDoc h r then fieldNames @ [''documentation''] else fieldNames)"

definition checkDocCtx :: "heap \<Rightarrow> cref \<Rightarrow> ref \<Rightarrow> error + unit" where
  "checkDocCtx h c r =
     (if isStructuredDoc h r then checkVFieldCtx h c r ''documentation'' else Inr ())"

text \<open>
  The guard of \<open>Identifier\<close>, \<open>IdentifierPath\<close> and \<open>MemberAccess\<close>:
  \<^verbatim>\<open>referencedDeclaration !== null && vReferencedDeclaration !== undefined\<close>.
\<close>

definition hasResolvedReference :: "heap \<Rightarrow> ref \<Rightarrow> bool" where
  "hasResolvedReference h r =
     (getField h r ''referencedDeclaration'' \<noteq> Inr VNull
      \<and> getField h r ''vReferencedDeclaration'' \<noteq> Inr VUndefined)"

definition checkReference :: "heap \<Rightarrow> cref \<Rightarrow> ref \<Rightarrow> error + unit" where
  "checkReference h c r =
     (if hasResolvedReference h r
      then seqE
        [checkFieldAndVFieldMatch h r ''referencedDeclaration'' ''vReferencedDeclaration'',
         checkVFieldCtx h c r ''vReferencedDeclaration'']
      else Inr ())"

text \<open>The field list of the \<open>ContractDefinition\<close> branch, as the source writes it.\<close>

definition contractFields :: "string list" where
  "contractFields =
     [''documentation'', ''vInheritanceSpecifiers'', ''vStateVariables'', ''vModifiers'',
      ''vErrors'', ''vEvents'', ''vFunctions'', ''vUsingForDirectives'', ''vStructs'',
      ''vEnums'', ''vUserDefinedValueTypes'', ''vConstructor'']"

definition checkContract :: "heap \<Rightarrow> cref \<Rightarrow> ref \<Rightarrow> error + unit" where
  "checkContract h c r =
     seqE
       [checkFieldAndVFieldMatch h r ''scope'' ''vScope'',
        checkVFieldCtx h c r ''vScope'',
        (case vScope h r of
           Inl e \<Rightarrow> Inl e
         | Inr v \<Rightarrow>
             if v \<noteq> nodeOrUndefined (parent (nodes h r))
             then Inl (InsaneASTError (ScopeAndParentDiffer r))
             else Inr ()),
        checkFieldAndVFieldMatch h r ''linearizedBaseContracts'' ''vLinearizedBaseContracts'',
        checkVFieldCtx h c r ''vLinearizedBaseContracts'',
        checkFieldAndVFieldMatch h r ''usedErrors'' ''vUsedErrors'',
        checkVFieldCtx h c r ''vUsedErrors'',
        checkDocCtx h c r,
        checkDirectChildren h r (withDoc h r contractFields)]"


definition sourceUnitFields :: "string list" where
  "sourceUnitFields =
     [''vPragmaDirectives'', ''vImportDirectives'', ''vContracts'', ''vEnums'', ''vStructs'',
      ''vFunctions'', ''vVariables'', ''vErrors'', ''vUserDefinedValueTypes'']"

definition checkSourceUnit :: "heap \<Rightarrow> cref \<Rightarrow> ref \<Rightarrow> error + unit" where
  "checkSourceUnit h c r =
     seqE
       [(case getField h r ''exportedSymbols'' of
           Inl e \<Rightarrow> Inl e
         | Inr (VMap entries) \<Rightarrow> checkExportedSymbols h c r entries
         | Inr _ \<Rightarrow> Inl (TypeError NotIterable)),
        checkDirectChildren h r sourceUnitFields]"

definition checkImport :: "heap \<Rightarrow> cref \<Rightarrow> ref \<Rightarrow> error + unit" where
  "checkImport h c r =
     seqE
       [checkImportAliases h c r,
        checkFieldAndVFieldMatch h r ''scope'' ''vScope'',
        checkVFieldCtx h c r ''vScope'',
        checkFieldAndVFieldMatch h r ''sourceUnit'' ''vSourceUnit'',
        checkVFieldCtx h c r ''vSourceUnit'']"

text \<open>
  The branches of \<open>checkSane\<close> for a node that is not one of the leaf classes, in the
  order of the source. \<open>k\<close> is the class of the node \<open>r\<close>.
\<close>

definition checkKind :: "heap \<Rightarrow> cref \<Rightarrow> ref \<Rightarrow> node_kind \<Rightarrow> error + unit" where
  "checkKind h c r k =
     (if k = ''SourceUnit'' then checkSourceUnit h c r
      else if k = ''ImportDirective'' then checkImport h c r
      else if k = ''InheritanceSpecifier''
        then checkDirectChildren h r [''vBaseType'', ''vArguments'']
      else if k = ''ModifierInvocation''
        then seqE [checkVFieldCtx h c r ''vModifier'',
                   checkDirectChildren h r [''vModifierName'', ''vArguments'']]
      else if k = ''OverrideSpecifier'' then checkDirectChildren h r [''vOverrides'']
      else if k = ''ParameterList''
        then seqE [checkVFieldCtx h c r ''vParameters'',
                   checkDirectChildren h r [''vParameters'']]
      else if k = ''UsingForDirective''
        then checkDirectChildren h r [''vLibraryName'', ''vTypeName'']
      else if k = ''ContractDefinition'' then checkContract h c r
      else if k = ''EnumDefinition''
        then seqE [checkVFieldCtx h c r ''vScope'', checkDirectChildren h r [''vMembers'']]
      else if k = ''ErrorDefinition''
        then seqE [checkVFieldCtx h c r ''vScope'', checkDocCtx h c r,
                   checkDirectChildren h r (withDoc h r [''vParameters''])]
      else if k = ''EventDefinition''
        then seqE [checkVFieldCtx h c r ''vScope'', checkDocCtx h c r,
                   checkDirectChildren h r (withDoc h r [''vParameters''])]
      else if k = ''FunctionDefinition''
        then seqE [checkFieldAndVFieldMatch h r ''scope'' ''vScope'',
                   checkVFieldCtx h c r ''vScope'', checkDocCtx h c r,
                   checkDirectChildren h r
                     (withDoc h r [''vParameters'', ''vOverrideSpecifier'', ''vModifiers'',
                                   ''vReturnParameters'', ''vBody''])]
      else if k = ''ModifierDefinition''
        then seqE [checkVFieldCtx h c r ''vScope'', checkDocCtx h c r,
                   checkDirectChildren h r
                     (withDoc h r [''vParameters'', ''vOverrideSpecifier'', ''vBody''])]
      else if k = ''StructDefinition''
        then seqE [checkFieldAndVFieldMatch h r ''scope'' ''vScope'',
                   checkVFieldCtx h c r ''vScope'',
                   checkDirectChildren h r [''vMembers'']]
      else if k = ''UserDefinedValueTypeDefinition''
        then seqE [checkVFieldCtx h c r ''vScope'', checkVFieldCtx h c r ''underlyingType'',
                   checkDirectChildren h r [''underlyingType'']]
      else if k = ''VariableDeclaration''
        then seqE [checkFieldAndVFieldMatch h r ''scope'' ''vScope'',
                   checkVFieldCtx h c r ''vScope'', checkDocCtx h c r,
                   checkDirectChildren h r
                     (withDoc h r [''vType'', ''vOverrideSpecifier'', ''vValue''])]
      else if k = ''Block'' \<or> k = ''UncheckedBlock''
        then checkDirectChildren h r [''vStatements'']
      else if k = ''DoWhileStatement'' then checkDirectChildren h r [''vCondition'', ''vBody'']
      else if k = ''EmitStatement'' then checkDirectChildren h r [''vEventCall'']
      else if k = ''RevertStatement'' then checkDirectChildren h r [''errorCall'']
      else if k = ''ExpressionStatement'' then checkDirectChildren h r [''vExpression'']
      else if k = ''ForStatement''
        then checkDirectChildren h r
               [''vInitializationExpression'', ''vLoopExpression'', ''vCondition'', ''vBody'']
      else if k = ''IfStatement''
        then seqE [checkVFieldCtx h c r ''vCondition'', checkVFieldCtx h c r ''vTrueBody'',
                   (if getField h r ''vFalseBody'' \<noteq> Inr VUndefined
                    then checkVFieldCtx h c r ''vFalseBody'' else Inr ()),
                   checkDirectChildren h r [''vCondition'', ''vTrueBody'', ''vFalseBody'']]
      else if k = ''Return''
        then seqE [checkFieldAndVFieldMatch h r
                     ''functionReturnParameters'' ''vFunctionReturnParameters'',
                   checkVFieldCtx h c r ''vFunctionReturnParameters'',
                   checkDirectChildren h r [''vExpression'']]
      else if k = ''TryCatchClause'' then checkDirectChildren h r [''vParameters'', ''vBlock'']
      else if k = ''TryStatement'' then checkDirectChildren h r [''vExternalCall'', ''vClauses'']
      else if k = ''VariableDeclarationStatement''
        then checkDirectChildren h r [''vDeclarations'', ''vInitialValue'']
      else if k = ''WhileStatement'' then checkDirectChildren h r [''vCondition'', ''vBody'']
      else if k = ''ArrayTypeName'' then checkDirectChildren h r [''vBaseType'', ''vLength'']
      else if k = ''FunctionTypeName''
        then checkDirectChildren h r [''vParameterTypes'', ''vReturnParameterTypes'']
      else if k = ''Mapping'' then checkDirectChildren h r [''vKeyType'', ''vValueType'']
      else if k = ''UserDefinedTypeName''
        then seqE [checkFieldAndVFieldMatch h r
                     ''referencedDeclaration'' ''vReferencedDeclaration'',
                   checkVFieldCtx h c r ''vReferencedDeclaration'',
                   checkDirectChildren h r [''path'']]
      else if k = ''Assignment''
        then checkDirectChildren h r [''vLeftHandSide'', ''vRightHandSide'']
      else if k = ''BinaryOperation''
        then checkDirectChildren h r [''vLeftExpression'', ''vRightExpression'']
      else if k = ''Conditional''
        then checkDirectChildren h r [''vCondition'', ''vTrueExpression'', ''vFalseExpression'']
      else if k = ''ElementaryTypeNameExpression''
        then (case getField h r ''typeName'' of
                Inl e \<Rightarrow> Inl e
              | Inr (VStr s) \<Rightarrow> Inr ()
              | Inr _ \<Rightarrow> checkDirectChildren h r [''typeName''])
      else if k = ''FunctionCall'' then checkDirectChildren h r [''vExpression'', ''vArguments'']
      else if k = ''FunctionCallOptions''
        then checkDirectChildren h r [''vExpression'', ''vOptionsMap'']
      else if k = ''Identifier'' \<or> k = ''IdentifierPath'' then checkReference h c r
      else if k = ''IndexAccess''
        then checkDirectChildren h r [''vBaseExpression'', ''vIndexExpression'']
      else if k = ''IndexRangeAccess''
        then checkDirectChildren h r
               [''vBaseExpression'', ''vStartExpression'', ''vEndExpression'']
      else if k = ''MemberAccess''
        then seqE [checkReference h c r, checkDirectChildren h r [''vExpression'']]
      else if k = ''NewExpression'' then checkDirectChildren h r [''vTypeName'']
      else if k = ''TupleExpression''
        then checkDirectChildren h r [''vOriginalComponents'', ''vComponents'']
      else if k = ''UnaryOperation''
        then seqE [checkVFieldCtx h c r ''vSubExpression'',
                   checkDirectChildren h r [''vSubExpression'']]
      else Inl (Error (UnknownNodeType r)))"

text \<open>The classes without children or references, which the checker skips.\<close>

definition leafKinds :: "node_kind list" where
  "leafKinds =
     [''PragmaDirective'', ''StructuredDocumentation'', ''EnumValue'', ''Break'', ''Continue'',
      ''InlineAssembly'', ''PlaceholderStatement'', ''Throw'', ''ElementaryTypeName'',
      ''Literal'']"

text \<open>The body of the loop of \<open>checkSane\<close> for one node.\<close>

definition checkNode :: "heap \<Rightarrow> cref \<Rightarrow> ref \<Rightarrow> error + unit" where
  "checkNode h c r =
     (if \<not> contains h c r then Inl (InsaneASTError (ChildInDifferentContext r))
      else case checkParents h r (children (nodes h r)) of
        Inl e \<Rightarrow> Inl e
      | Inr u \<Rightarrow>
          if kind (nodes h r) \<in> set leafKinds then Inr ()
          else checkKind h c r (kind (nodes h r)))"

fun checkNodes :: "heap \<Rightarrow> cref \<Rightarrow> ref list \<Rightarrow> error + unit" where
  "checkNodes h c [] = Inr ()"
| "checkNodes h c (r # rs) =
     (case checkNode h c r of Inl e \<Rightarrow> Inl e | Inr u \<Rightarrow> checkNodes h c rs)"

text \<open>
  Modelled from the spec: \<open>ASTNode.getChildren(inclusive)\<close> is not among the sources;
  section 4.6 gives \<open>descendants(include_self)\<close> as the pre-order enumeration of the
  subtree. The first argument bounds the depth of the walk; \<open>None\<close> is a walk that did
  not end within the bound (the children lists of a store need not form a tree).
\<close>

fun getChildren :: "nat \<Rightarrow> heap \<Rightarrow> ref \<Rightarrow> ref list option" where
  "getChildren 0 h r = None"
| "getChildren (Suc k) h r =
     map_option (\<lambda>xss. r # concat xss)
       (those (map (getChildren k h) (children (nodes h r))))"

text \<open>
  \<open>checkSane(unit, ctx)\<close>: \<open>Some (Inr ())\<close> is a return, \<open>Some (Inl e)\<close> the exception
  \<open>e\<close>, \<open>None\<close> a walk that did not end within the bound.
\<close>

definition checkSane :: "nat \<Rightarrow> heap \<Rightarrow> ref \<Rightarrow> cref \<Rightarrow> (error + unit) option" where
  "checkSane fuel h unit c = map_option (checkNodes h c) (getChildren fuel h unit)"

text \<open>
  \<open>isSane(unit, ctx)\<close>: the \<^verbatim>\<open>try\<close> around \<open>checkSane\<close>; an \<open>InsaneASTError\<close> is logged
  and answered with \<open>false\<close>, any other exception is thrown again.
\<close>

definition isSane :: "nat \<Rightarrow> heap \<Rightarrow> ref \<Rightarrow> cref \<Rightarrow> (error + bool) option" where
  "isSane fuel h unit c =
     (case checkSane fuel h unit c of
        None \<Rightarrow> None
      | Some (Inr u) \<Rightarrow> Some (Inr True)
      | Some (Inl (InsaneASTError p)) \<Rightarrow> Some (Inr False)
      | Some (Inl e) \<Rightarrow> Some (Inl e))"


subsection \<open>What the checker establishes for reference fields\<close>

text \<open>
  Agreement of a numeric reference \<open>f\<close> with its view \<open>vf\<close>: a scalar id with a node
  of that id; a list with a list of nodes of the same length, the id at each index the
  id of the node at that index. A field that holds neither has nothing to agree on.
\<close>

definition viewAgrees :: "heap \<Rightarrow> jsval \<Rightarrow> jsval \<Rightarrow> bool" where
  "viewAgrees h f vf =
     (case f of
        VNum i \<Rightarrow> (case vf of VNode n \<Rightarrow> nid (nodes h n) = i | _ \<Rightarrow> False)
      | VArr xs \<Rightarrow>
          (case vf of
             VArr ys \<Rightarrow>
               list_all2
                 (\<lambda>x y. case y of VNode n \<Rightarrow> x = VNum (nid (nodes h n)) | _ \<Rightarrow> False) xs ys
           | _ \<Rightarrow> False)
      | _ \<Rightarrow> True)"

definition fieldsAgree :: "heap \<Rightarrow> ref \<Rightarrow> string \<Rightarrow> string \<Rightarrow> bool" where
  "fieldsAgree h r f vf =
     (case getField h r f of
        Inl e \<Rightarrow> False
      | Inr v1 \<Rightarrow> (case getField h r vf of Inl e \<Rightarrow> False | Inr v2 \<Rightarrow> viewAgrees h v1 v2))"

text \<open>
  The pairs that \<open>checkSane\<close> passes to \<open>checkFieldAndVFieldMatch\<close>, by class of the
  node: read off the branches of \<open>checkKind\<close>. For \<open>Identifier\<close>, \<open>IdentifierPath\<close>
  and \<open>MemberAccess\<close> the pair is checked only under the guard of the source.
\<close>

definition checkedPairs :: "heap \<Rightarrow> ref \<Rightarrow> (string \<times> string) list" where
  "checkedPairs h r =
     (let k = kind (nodes h r) in
      if k = ''ImportDirective''
        then [(''scope'', ''vScope''), (''sourceUnit'', ''vSourceUnit'')]
      else if k = ''ContractDefinition''
        then [(''scope'', ''vScope''),
              (''linearizedBaseContracts'', ''vLinearizedBaseContracts''),
              (''usedErrors'', ''vUsedErrors'')]
      else if k = ''FunctionDefinition'' \<or> k = ''StructDefinition''
              \<or> k = ''VariableDeclaration''
        then [(''scope'', ''vScope'')]
      else if k = ''Return''
        then [(''functionReturnParameters'', ''vFunctionReturnParameters'')]
      else if k = ''UserDefinedTypeName''
        then [(''referencedDeclaration'', ''vReferencedDeclaration'')]
      else if (k = ''Identifier'' \<or> k = ''IdentifierPath'' \<or> k = ''MemberAccess'')
              \<and> hasResolvedReference h r
        then [(''referencedDeclaration'', ''vReferencedDeclaration'')]
      else [])"

section \<open>Mutators of \<open>ContractDefinition\<close>\<close>

text \<open>
  A mutator takes the store and returns what the call did (a return or the exception)
  together with the store it leaves behind: an exception does not undo the
  assignments made before it.
\<close>

definition updNode :: "heap \<Rightarrow> ref \<Rightarrow> (node \<Rightarrow> node) \<Rightarrow> heap" where
  "updNode h r f = h\<lparr>nodes := (nodes h)(r := f (nodes h r))\<rparr>"

text \<open>
  The setter \<open>vScope\<close>: the context-membership test comes first, the assignment to
  \<open>scope\<close> after it.
\<close>

definition set_vScope :: "heap \<Rightarrow> ref \<Rightarrow> ref \<Rightarrow> (error + unit) \<times> heap" where
  "set_vScope h this val =
     (case requiredContext h this of
        Inl e \<Rightarrow> (Inl e, h)
      | Inr c \<Rightarrow>
          if \<not> contains h c val then (Inl (Error (NotInCurrentContext val)), h)
          else (Inr (), updNode h this (\<lambda>n. n\<lparr>scope := nid (nodes h val)\<rparr>)))"

text \<open>
  Modelled from the spec: the list mutations of \<open>ASTNodeWithChildren\<close>
  (\<open>removeChild\<close>, \<open>insertAtBeginning\<close>, \<open>replaceChild\<close>) are not among the sources.
  Section 4.4: each mutation updates exactly the parent's child list and the child's
  parent pointer; replacing \<open>o\<close> by \<open>n\<close> is \<open>replace_child(n, o); n.parent := parent;
  o.parent := none\<close>. Section 7: a mutation validates its input and fails before
  touching state, so a reference node that is not a child leaves the store as it was.
\<close>

fun replaceFirst :: "'a \<Rightarrow> 'a \<Rightarrow> 'a list \<Rightarrow> 'a list" where
  "replaceFirst new old [] = []"
| "replaceFirst new old (x # xs) = (if x = old then new # xs else x # replaceFirst new old xs)"

definition removeChild :: "heap \<Rightarrow> ref \<Rightarrow> ref \<Rightarrow> (error + unit) \<times> heap" where
  "removeChild h this c =
     (if c \<notin> set (children (nodes h this)) then (Inl (Error (NotAChild this c)), h)
      else
        (let h1 = updNode h this (\<lambda>n. n\<lparr>children := remove1 c (children n)\<rparr>)
         in (Inr (), updNode h1 c (\<lambda>n. n\<lparr>parent := None\<rparr>))))"

definition insertAtBeginning :: "heap \<Rightarrow> ref \<Rightarrow> ref \<Rightarrow> (error + unit) \<times> heap" where
  "insertAtBeginning h this c =
     (let h1 = updNode h this (\<lambda>n. n\<lparr>children := c # children n\<rparr>)
      in (Inr (), updNode h1 c (\<lambda>n. n\<lparr>parent := Some this\<rparr>)))"

definition replaceChild :: "heap \<Rightarrow> ref \<Rightarrow> ref \<Rightarrow> ref \<Rightarrow> (error + unit) \<times> heap" where
  "replaceChild h this new old =
     (if old \<notin> set (children (nodes h this)) then (Inl (Error (NotAChild this old)), h)
      else
        (let h1 = updNode h this (\<lambda>n. n\<lparr>children := replaceFirst new old (children n)\<rparr>);
             h2 = updNode h1 new (\<lambda>n. n\<lparr>parent := Some this\<rparr>)
         in (Inr (), updNode h2 old (\<lambda>n. n\<lparr>parent := None\<rparr>))))"

text \<open>
  The setter \<open>documentation\<close>. \<open>old\<close> is what the getter returns before the
  assignment.
\<close>

definition set_documentation :: "heap \<Rightarrow> ref \<Rightarrow> jsval \<Rightarrow> (error + unit) \<times> heap" where
  "set_documentation h this val =
     (let old = documentation h this in
      if instanceOf h val ''StructuredDocumentation'' then
        (let h1 = updNode h this (\<lambda>n. n\<lparr>docString := VUndefined\<rparr>) in
         case val of
           VNode new \<Rightarrow>
             (if instanceOf h1 old ''StructuredDocumentation'' then
                (case old of
                   VNode prev \<Rightarrow>
                     if new \<noteq> prev then replaceChild h1 this new prev else (Inr (), h1)
                 | _ \<Rightarrow> (Inr (), h1))
              else insertAtBeginning h1 this new)
         | _ \<Rightarrow> (Inr (), h1))
      else
        (case (case old of
                 VNode prev \<Rightarrow>
                   if instanceOf h old ''StructuredDocumentation'' then removeChild h this prev
                   else (Inr (), h)
               | _ \<Rightarrow> (Inr (), h)) of
           (Inl e, h1) \<Rightarrow> (Inl e, h1)
         | (Inr u, h1) \<Rightarrow> (Inr (), updNode h1 this (\<lambda>n. n\<lparr>docString := val\<rparr>))))"

text \<open>
  \<open>isSubclassOf(other)\<close>: \<^verbatim>\<open>vLinearizedBaseContracts.includes(other)\<close>; \<open>includes\<close>
  compares each element with the node \<open>other\<close> by identity.
\<close>

definition isSubclassOf :: "heap \<Rightarrow> ref \<Rightarrow> ref \<Rightarrow> error + bool" where
  "isSubclassOf h this other =
     (case vLinearizedBaseContracts h this of
        Inl e \<Rightarrow> Inl e
      | Inr vs \<Rightarrow> Inr (VNode other \<in> set vs))"


section \<open>Reading compiler output (\<open>compile/utils\<close>)\<close>

subsection \<open>Property access on parsed JSON\<close>

text \<open>
  The names the program asks for (\<open>sources\<close>, \<open>errors\<close>, \<open>severity\<close>,
  \<open>formattedMessage\<close>, \<open>source\<close>, \<open>ast\<close>, \<open>legacyAST\<close>, \<open>AST\<close>) are not properties
  of any prototype, so only own properties answer. An array has the own properties
  \<open>length\<close> and its indices, a string likewise.
\<close>

definition digitChar :: "nat \<Rightarrow> char" where
  "digitChar d = ''0123456789'' ! d"

function decimal :: "nat \<Rightarrow> string" where
  "decimal n = (if n < 10 then [digitChar n] else decimal (n div 10) @ [digitChar (n mod 10)])"
  by pat_completeness auto
termination
  by (relation "measure id") auto

declare decimal.simps [simp del]

definition arrayKeys :: "'a list \<Rightarrow> string list" where
  "arrayKeys xs = map decimal [0..<length xs]"

text \<open>\<^verbatim>\<open>v instanceof Object\<close> for a parsed JSON value.\<close>

definition isObject :: "json \<Rightarrow> bool" where
  "isObject v = (case v of JObj kvs \<Rightarrow> True | JArr xs \<Rightarrow> True | _ \<Rightarrow> False)"

text \<open>\<^verbatim>\<open>v.p\<close>: reading a property of \<open>null\<close> is a \<open>TypeError\<close>.\<close>

definition getProp :: "json \<Rightarrow> string \<Rightarrow> error + json option" where
  "getProp v p =
     (case v of
        JNull \<Rightarrow> Inl (TypeError PropertyOfNull)
      | JObj kvs \<Rightarrow> Inr (map_of kvs p)
      | JArr xs \<Rightarrow>
          Inr (if p = ''length'' then Some (JNum (int (length xs)))
               else map_of (zip (arrayKeys xs) xs) p)
      | JStr s \<Rightarrow>
          Inr (if p = ''length'' then Some (JNum (int (length s)))
               else map_of (zip (arrayKeys s) (map (\<lambda>c. JStr [c]) s)) p)
      | _ \<Rightarrow> Inr None)"

text \<open>\<^verbatim>\<open>p in v\<close>: a \<open>TypeError\<close> when \<open>v\<close> is not an object.\<close>

definition hasProperty :: "string \<Rightarrow> json \<Rightarrow> error + bool" where
  "hasProperty p v =
     (case v of
        JObj kvs \<Rightarrow> Inr (p \<in> set (map fst kvs))
      | JArr xs \<Rightarrow> Inr (p = ''length'' \<or> p \<in> set (arrayKeys xs))
      | _ \<Rightarrow> Inl (TypeError InOperatorOnPrimitive))"

text \<open>\<open>Object.values\<close> and \<open>Object.entries\<close> of a value that is \<^verbatim>\<open>instanceof Object\<close>.\<close>

definition objectEntries :: "json \<Rightarrow> (string \<times> json) list" where
  "objectEntries v =
     (case v of JObj kvs \<Rightarrow> kvs | JArr xs \<Rightarrow> zip (arrayKeys xs) xs | _ \<Rightarrow> [])"

definition objectValues :: "json \<Rightarrow> json list" where
  "objectValues v = map snd (objectEntries v)"

text \<open>Truthiness of a JSON value, and \<open>Map.prototype.set\<close> on an insertion-ordered map.\<close>

fun jsonTruthy :: "json \<Rightarrow> bool" where
  "jsonTruthy JNull = False"
| "jsonTruthy (JBool b) = b"
| "jsonTruthy (JNum i) = (i \<noteq> 0)"
| "jsonTruthy (JStr s) = (s \<noteq> [])"
| "jsonTruthy _ = True"

fun mapSet :: "('k \<times> 'v) list \<Rightarrow> 'k \<Rightarrow> 'v \<Rightarrow> ('k \<times> 'v) list" where
  "mapSet [] k v = [(k, v)]"
| "mapSet (e # es) k v = (if fst e = k then (k, v) # es else e # mapSet es k v)"

subsection \<open>\<open>consistentlyContainsOneOf\<close>\<close>

text \<open>\<^verbatim>\<open>sections.every((section) => property in section)\<close>, stopping at the first \<open>false\<close>.\<close>

fun everyHas :: "string \<Rightarrow> json list \<Rightarrow> error + bool" where
  "everyHas p [] = Inr True"
| "everyHas p (section # sections) =
     (case hasProperty p section of
        Inl e \<Rightarrow> Inl e
      | Inr b \<Rightarrow> if b then everyHas p sections else Inr False)"

fun containsOneOf :: "json list \<Rightarrow> string list \<Rightarrow> error + bool" where
  "containsOneOf sections [] = Inr False"
| "containsOneOf sections (property # properties) =
     (case everyHas property sections of
        Inl e \<Rightarrow> Inl e
      | Inr b \<Rightarrow> if b then Inr True else containsOneOf sections properties)"

definition consistentlyContainsOneOf :: "json \<Rightarrow> string list \<Rightarrow> error + bool" where
  "consistentlyContainsOneOf sources properties =
     containsOneOf (objectValues sources) properties"

subsection \<open>\<open>detectCompileErrors\<close>\<close>

text \<open>
  \<^verbatim>\<open>error.match("Warning")\<close> makes a regular expression of the string: it matches
  when \<open>Warning\<close> occurs somewhere in the text.
\<close>

fun startsWith :: "string \<Rightarrow> string \<Rightarrow> bool" where
  "startsWith [] s = True"
| "startsWith (p # ps) [] = False"
| "startsWith (p # ps) (c # cs) = (p = c \<and> startsWith ps cs)"

fun includesText :: "string \<Rightarrow> string \<Rightarrow> bool" where
  "includesText p [] = (p = [])"
| "includesText p (c # cs) = (startsWith p (c # cs) \<or> includesText p cs)"

text \<open>
  The loop over \<open>data.errors\<close>. \<^verbatim>\<open>typeof\<close> is \<open>"object"\<close> for an object, an array and
  \<open>null\<close>; reading \<open>severity\<close> of \<open>null\<close> throws. An entry that is selected is pushed as
  its \<open>formattedMessage\<close> (an object) or as it is (a string).
\<close>

fun detectLoop :: "json list \<Rightarrow> error + json option list" where
  "detectLoop [] = Inr []"
| "detectLoop (err # errs) =
     (case err of
        JStr s \<Rightarrow>
          (case detectLoop errs of
             Inl e \<Rightarrow> Inl e
           | Inr rest \<Rightarrow> if \<not> includesText ''Warning'' s then Inr (Some err # rest) else Inr rest)
      | JBool b \<Rightarrow> detectLoop errs
      | JNum i \<Rightarrow> detectLoop errs
      | _ \<Rightarrow>
          (case getProp err ''severity'' of
             Inl e \<Rightarrow> Inl e
           | Inr sev \<Rightarrow>
               (case detectLoop errs of
                  Inl e \<Rightarrow> Inl e
                | Inr rest \<Rightarrow>
                    if sev = Some (JStr ''error'')
                    then (case getProp err ''formattedMessage'' of
                            Inl e \<Rightarrow> Inl e
                          | Inr msg \<Rightarrow> Inr (msg # rest))
                    else Inr rest)))"

definition detectCompileErrors :: "json \<Rightarrow> error + json option list" where
  "detectCompileErrors data =
     (case getProp data ''errors'' of
        Inl e \<Rightarrow> Inl e
      | Inr (Some (JArr errs)) \<Rightarrow> detectLoop errs
      | Inr _ \<Rightarrow> Inr [])"

subsection \<open>\<open>compileJsonData\<close>\<close>

record compileResult =
  data :: json
  compilerVersion :: "string option"
  files :: "(string \<times> json option) list"

text \<open>\<open>fillFilesFromSources\<close>: the sections that are truthy and have a string \<open>source\<close>.\<close>

fun fillFilesFromSources ::
  "(string \<times> json option) list \<Rightarrow> (string \<times> json) list \<Rightarrow> (string \<times> json option) list" where
  "fillFilesFromSources fs [] = fs"
| "fillFilesFromSources fs (entry # entries) =
     (if jsonTruthy (snd entry) then
        (case getProp (snd entry) ''source'' of
           Inr (Some (JStr s)) \<Rightarrow> fillFilesFromSources (mapSet fs (fst entry) (Some (JStr s))) entries
         | _ \<Rightarrow> fillFilesFromSources fs entries)
      else fillFilesFromSources fs entries)"

text \<open>The loop of the raw-source branch that stores \<open>fileData.source\<close> for every entry.\<close>

fun setFilesFromSources ::
  "(string \<times> json option) list \<Rightarrow> (string \<times> json) list \<Rightarrow> error + (string \<times> json option) list" where
  "setFilesFromSources fs [] = Inr fs"
| "setFilesFromSources fs (entry # entries) =
     (case getProp (snd entry) ''source'' of
        Inl e \<Rightarrow> Inl e
      | Inr src \<Rightarrow> setFilesFromSources (mapSet fs (fst entry) src) entries)"

text \<open>
  The compiler is an external collaborator: \<open>compile\<close> stands for the call
  \<open>compile(files, [], compilerVersion, ...)\<close> and \<open>select\<close> for the versions that the
  version strategy yields for the given source texts. The loop returns the output of
  the first version that compiles without errors.
\<close>

fun compileLoop ::
  "((string \<times> json option) list \<Rightarrow> string \<Rightarrow> error + json) \<Rightarrow> (string \<times> json option) list \<Rightarrow>
     string list \<Rightarrow> (string option \<times> json option list) list \<Rightarrow> error + compileResult" where
  "compileLoop compile fs [] failures = Inl (CompileFailedError failures)"
| "compileLoop compile fs (v # vs) failures =
     (case compile fs v of
        Inl e \<Rightarrow> Inl e
      | Inr compileData \<Rightarrow>
          (case detectCompileErrors compileData of
             Inl e \<Rightarrow> Inl e
           | Inr errors \<Rightarrow>
               if length errors = 0
               then Inr \<lparr>data = compileData, compilerVersion = Some v, files = fs\<rparr>
               else compileLoop compile fs vs (failures @ [(Some v, errors)])))"

definition astProperties :: "string list" where
  "astProperties = [''ast'', ''legacyAST'', ''AST'']"

definition compileJsonData ::
  "((string \<times> json option) list \<Rightarrow> string \<Rightarrow> error + json) \<Rightarrow> (json option list \<Rightarrow> string list) \<Rightarrow>
     string \<Rightarrow> json \<Rightarrow> error + compileResult" where
  "compileJsonData compile select fileName dat =
     (case (if isObject dat then getProp dat ''sources'' else Inr None) of
        Inl e \<Rightarrow> Inl e
      | Inr None \<Rightarrow> Inl (Error (RequiredPropertiesNotFound fileName))
      | Inr (Some sources) \<Rightarrow>
          if \<not> isObject sources then Inl (Error (RequiredPropertiesNotFound fileName))
          else
            (case consistentlyContainsOneOf sources astProperties of
               Inl e \<Rightarrow> Inl e
             | Inr isAst \<Rightarrow>
                 if isAst then
                   (case detectCompileErrors dat of
                      Inl e \<Rightarrow> Inl e
                    | Inr errors \<Rightarrow>
                        if length errors \<noteq> 0 then Inl (CompileFailedError [(None, errors)])
                        else Inr \<lparr>data = dat, compilerVersion = None,
                                  files = fillFilesFromSources [] (objectEntries sources)\<rparr>)
                 else
                   (case consistentlyContainsOneOf sources [''source''] of
                      Inl e \<Rightarrow> Inl e
                    | Inr isSource \<Rightarrow>
                        if isSource then
                          (case setFilesFromSources [] (objectEntries sources) of
                             Inl e \<Rightarrow> Inl e
                           | Inr fs \<Rightarrow> compileLoop compile fs (select (map snd fs)) [])
                        else Inl (Error NoConsistentAstOrSource))))"


section \<open>Copying a subtree\<close>

text \<open>
  Modelled from the spec: the id counter and the registration of \<open>ASTContext\<close>,
  \<open>ASTNodeFactory.copy\<close> and \<open>ASTNode.print\<close> are not among the sources; only tests
  that call them are. What follows is written from sections 3, 4.1, 4.2 and 4.6 of the
  spec and from what the unit tests of \<open>copy\<close> among the sources show of the code.

  A subtree is taken with its ownership structure: a node with its id, class, source
  range, value attributes, referential attributes and structural children. Within one
  context the id identifies the node. A referential attribute holds a scalar id or an
  ordered list of ids in which an omitted position is \<open>null\<close>.

  The children are kept as the constructor of the class takes them, each with its
  place in \<open>children\<close>: the two orders differ. The constructor of an
  \<open>ErrorDefinition\<close>, which is among the sources, takes the parameters before the
  documentation, and its \<open>children\<close> lists the documentation first; the test of
  copying an \<open>EventDefinition\<close> shows the same of that class.
\<close>

datatype refval = RefId int | RefIds "int option list"

datatype subtree =
  Subtree (sid: int) (skind: node_kind) (ssrc: string)
    (svalues: "(string \<times> jsval) list") (srefs: "(string \<times> refval) list")
    (sargs: "(nat \<times> subtree) list")



text \<open>
  The ids of the nodes of a subtree, a node before the nodes of its arguments. Two
  subtrees of the same build have corresponding nodes at the same index.
\<close>

fun ids :: "subtree \<Rightarrow> int list" where
  "ids (Subtree i k s vs rs args) = i # concat (map (\<lambda>a. ids (snd a)) args)"





text \<open>
  Modelled from the spec: section 4.1, the context as an arena with an id counter and
  the ids of the nodes it owns. \<open>fresh_id\<close> hands out the counter and advances it;
  registering an id that is taken fails with \<open>DuplicateId\<close> (section 7).
\<close>

record astContext =
  nextId :: int
  registered :: "int list"

definition fresh_id :: "astContext \<Rightarrow> int \<times> astContext" where
  "fresh_id c = (nextId c, c\<lparr>nextId := nextId c + 1\<rparr>)"

definition register :: "int \<Rightarrow> astContext \<Rightarrow> error + astContext" where
  "register i c =
     (if i \<in> set (registered c) then Inl (Error (DuplicateId i))
      else Inr (c\<lparr>registered := registered c @ [i]\<rparr>))"

text \<open>
  Modelled from the spec: section 4.2, a constructor of the factory takes the children
  and the attributes, allocates a fresh id and registers the new node.
\<close>

definition make ::
  "astContext \<Rightarrow> node_kind \<Rightarrow> string \<Rightarrow> (string \<times> jsval) list \<Rightarrow> (string \<times> refval) list \<Rightarrow>
     (nat \<times> subtree) list \<Rightarrow> error + subtree \<times> astContext" where
  "make c k s vs rs args =
     (case fresh_id c of
        (i, c1) \<Rightarrow>
          (case register i c1 of
             Inl e \<Rightarrow> Inl e
           | Inr c2 \<Rightarrow> Inr (Subtree i k s vs rs args, c2)))"

text \<open>
  Modelled from the spec: section 4.2, deep copy. Every node is recreated with a fresh
  id, its class, source range and value attributes taken over, its children rewired
  bottom-up. The spec has the ids come from a walk in pre-order; the unit tests of
  \<open>copy\<close>, which are among the sources, show another order, which is the one taken
  here: the arguments of the constructor are copied, in the order in which the
  constructor takes them, before the node itself is made. The clone of an enum
  definition (id 2) with one value (id 1) gets the ids 4 and 3; the clone of an event
  definition (id 3) with parameters (id 1) and documentation (id 2) gets the id 6, its
  parameters 4 and its documentation 5, while \<open>children\<close> lists the documentation
  first.
\<close>

fun recreate :: "astContext \<Rightarrow> subtree \<Rightarrow> error + subtree \<times> astContext"
  and recreateArgs ::
    "astContext \<Rightarrow> (nat \<times> subtree) list \<Rightarrow> error + (nat \<times> subtree) list \<times> astContext"
where
  "recreate c (Subtree i k s vs rs args) =
     (case recreateArgs c args of
        Inl e \<Rightarrow> Inl e
      | Inr (args', c1) \<Rightarrow> make c1 k s vs rs args')"
| "recreateArgs c [] = Inr ([], c)"
| "recreateArgs c ((p, t) # args) =
     (case recreate c t of
        Inl e \<Rightarrow> Inl e
      | Inr (t', c1) \<Rightarrow>
          (case recreateArgs c1 args of
             Inl e \<Rightarrow> Inl e
           | Inr (args', c2) \<Rightarrow> Inr ((p, t') # args', c2)))"

text \<open>
  Modelled from the spec: section 4.2, step 3. With the map from old ids to new ids of
  the whole subtree, a referential attribute gets the new id when its referent lies in
  the subtree and keeps the original id otherwise; lists are mapped element by element
  and keep their \<open>null\<close>s.
\<close>

definition remap :: "(int \<Rightarrow> int option) \<Rightarrow> int \<Rightarrow> int" where
  "remap m i = (case m i of None \<Rightarrow> i | Some j \<Rightarrow> j)"

fun patchRef :: "(int \<Rightarrow> int option) \<Rightarrow> refval \<Rightarrow> refval" where
  "patchRef m (RefId i) = RefId (remap m i)"
| "patchRef m (RefIds xs) = RefIds (map (map_option (remap m)) xs)"

fun patchIds :: "(int \<Rightarrow> int option) \<Rightarrow> subtree \<Rightarrow> subtree" where
  "patchIds m (Subtree i k s vs rs args) =
     Subtree i k s vs (map (\<lambda>r. (fst r, patchRef m (snd r))) rs)
       (map (\<lambda>a. (fst a, patchIds m (snd a))) args)"

definition copy :: "astContext \<Rightarrow> subtree \<Rightarrow> error + subtree \<times> astContext" where
  "copy c r =
     (case recreate c r of
        Inl e \<Rightarrow> Inl e
      | Inr (r1, c1) \<Rightarrow> Inr (patchIds (map_of (zip (ids r) (ids r1))) r1, c1))"








definition ownedBy :: "astContext \<Rightarrow> subtree \<Rightarrow> bool" where
  "ownedBy c r = list_all (\<lambda>i. i \<in> set (registered c)) (ids r)"


section \<open>Notions used to state the properties\<close>

text \<open>The ownership relation of a store: \<open>(p, c)\<close> when \<open>c\<close> is among the children of \<open>p\<close>.\<close>

definition childRel :: "heap \<Rightarrow> (ref \<times> ref) set" where
  "childRel h = {(p, c). c \<in> set (children (nodes h p))}"

text \<open>
  The children lists below \<open>r\<close> form a finite tree: no chain of children from \<open>r\<close> goes
  on for ever (invariant 6 of section 3 of the spec). It is what lets a walk from \<open>r\<close>
  end.
\<close>

inductive finiteBelow :: "heap \<Rightarrow> ref \<Rightarrow> bool" for h :: heap where
  below: "(\<And>ch. ch \<in> set (children (nodes h r)) \<Longrightarrow> finiteBelow h ch) \<Longrightarrow> finiteBelow h r"

text \<open>\<open>u\<close> is contained in the context of \<open>this\<close> (which \<open>this\<close> must have).\<close>

definition inContextOf :: "heap \<Rightarrow> ref \<Rightarrow> ref \<Rightarrow> bool" where
  "inContextOf h this u =
     (case nodeContext (nodes h this) of None \<Rightarrow> False | Some c \<Rightarrow> contains h c u)"

definition isDoc :: "heap \<Rightarrow> ref \<Rightarrow> bool" where
  "isDoc h r = (kind (nodes h r) = ''StructuredDocumentation'')"

text \<open>
  The shape of a contract that the accessors of \<open>documentation\<close> maintain: the stored
  \<open>docString\<close> is a string or \<open>undefined\<close>; with a string stored there is no
  \<open>StructuredDocumentation\<close> among the children, otherwise there is at most one.
\<close>

definition docWellFormed :: "heap \<Rightarrow> ref \<Rightarrow> bool" where
  "docWellFormed h this =
     (kind (nodes h this) = ''ContractDefinition''
      \<and> (case docString (nodes h this) of
            VUndefined \<Rightarrow> length (filter (isDoc h) (children (nodes h this))) \<le> 1
          | VStr s \<Rightarrow> filter (isDoc h) (children (nodes h this)) = []
          | _ \<Rightarrow> False))"

text \<open>The values of the declared type \<open>string | StructuredDocumentation | undefined\<close>.\<close>

definition docValue :: "heap \<Rightarrow> jsval \<Rightarrow> bool" where
  "docValue h v =
     (case v of VStr s \<Rightarrow> True | VUndefined \<Rightarrow> True | VNode n \<Rightarrow> isDoc h n | _ \<Rightarrow> False)"

text \<open>
  The entries of \<open>errors\<close> that count as compile errors, and what
  \<open>detectCompileErrors\<close> reports for such an entry.
\<close>

definition isCompileError :: "json \<Rightarrow> bool" where
  "isCompileError e =
     (case e of
        JObj kvs \<Rightarrow> map_of kvs ''severity'' = Some (JStr ''error'')
      | JStr s \<Rightarrow> \<not> includesText ''Warning'' s
      | _ \<Rightarrow> False)"

definition reportedAs :: "json \<Rightarrow> json option" where
  "reportedAs e = (case e of JObj kvs \<Rightarrow> map_of kvs ''formattedMessage'' | _ \<Rightarrow> Some e)"

section \<open>Example stores and compiler outputs\<close>

definition mkProps :: "(string \<times> jsval) list \<Rightarrow> string \<Rightarrow> jsval" where
  "mkProps kvs f = (case map_of kvs f of None \<Rightarrow> VUndefined | Some v \<Rightarrow> v)"

definition mkNode ::
  "int \<Rightarrow> node_kind \<Rightarrow> ref option \<Rightarrow> ref list \<Rightarrow> (string \<times> jsval) list \<Rightarrow> node" where
  "mkNode i k p cs kvs =
     \<lparr>nid = i, kind = k, parent = p, nodeContext = Some 0, children = cs,
      docString = VUndefined, scope = 0, linearizedBaseContracts = [], usedErrors = [],
      props = mkProps kvs\<rparr>"

text \<open>A node outside every tree and context, behind the references an example does not use.\<close>

definition detachedNode :: node where
  "detachedNode = (mkNode 0 ''ASTNode'' None [] [])\<lparr>nodeContext := None\<rparr>"

text \<open>
  The properties of a source unit that exports one symbol \<open>name\<close> with id \<open>i\<close>, the
  node \<open>r\<close>, listed under \<open>field\<close>.
\<close>

definition sourceUnitProps :: "string \<Rightarrow> int \<Rightarrow> ref \<Rightarrow> string \<Rightarrow> (string \<times> jsval) list" where
  "sourceUnitProps name i r field =
     [(field, VArr [VNode r]),
      (''exportedSymbols'', VMap [(name, VNum i)]),
      (''vExportedSymbols'', VMap [(name, VNode r)]),
      (''vPragmaDirectives'', VArr []), (''vImportDirectives'', VArr []),
      (''vContracts'', VArr []), (''vEnums'', VArr []), (''vStructs'', VArr []),
      (''vFunctions'', VArr []), (''vVariables'', VArr []), (''vErrors'', VArr []),
      (''vUserDefinedValueTypes'', VArr [])]"

text \<open>
  What the legacy reader builds for \<^verbatim>\<open>/** doc */ contract C {}\<close>: the source unit
  (reference 0, id 2) and the contract (reference 1, id 1) whose documentation is the
  text \<open>doc\<close>.
\<close>

definition legacyContract :: node where
  "legacyContract =
     (mkNode 1 ''ContractDefinition'' (Some 0) [] [(''name'', VStr ''C'')])
       \<lparr>docString := VStr ''doc'', scope := 2, linearizedBaseContracts := [1]\<rparr>"

definition legacyHeap :: heap where
  "legacyHeap =
     \<lparr>nodes = (\<lambda>r.
         if r = 0 then mkNode 2 ''SourceUnit'' None [1] (sourceUnitProps ''C'' 1 1 ''vContracts'')
         else if r = 1 then legacyContract
         else detachedNode),
      ctxs = (\<lambda>c. if c = 0 then [1 \<mapsto> 1, 2 \<mapsto> 0] else Map.empty)\<rparr>"

text \<open>The same tree without the documentation.\<close>

definition undocumentedHeap :: heap where
  "undocumentedHeap = updNode legacyHeap 1 (\<lambda>n. n\<lparr>docString := VUndefined\<rparr>)"

text \<open>
  The contract with one \<open>StructuredDocumentation\<close> child (reference 2), and with two
  (references 2 and 3), as the constructor holds it after appending the children
  \<open>[2, 3]\<close>.
\<close>

definition documentedHeap :: heap where
  "documentedHeap =
     \<lparr>nodes = (\<lambda>r.
         if r = 0 then mkNode 2 ''SourceUnit'' None [1] (sourceUnitProps ''C'' 1 1 ''vContracts'')
         else if r = 1 then
           (mkNode 1 ''ContractDefinition'' (Some 0) [2] [(''name'', VStr ''C'')])
             \<lparr>scope := 2, linearizedBaseContracts := [1]\<rparr>
         else if r = 2 then
           mkNode 3 ''StructuredDocumentation'' (Some 1) [] [(''text'', VStr ''doc'')]
         else detachedNode),
      ctxs = (\<lambda>c. if c = 0 then [1 \<mapsto> 1, 2 \<mapsto> 0, 3 \<mapsto> 2] else Map.empty)\<rparr>"

definition twoDocsHeap :: heap where
  "twoDocsHeap =
     \<lparr>nodes = (\<lambda>r.
         if r = 0 then mkNode 2 ''SourceUnit'' None [1] (sourceUnitProps ''C'' 1 1 ''vContracts'')
         else if r = 1 then
           (mkNode 1 ''ContractDefinition'' (Some 0) [2, 3] [(''name'', VStr ''C'')])
             \<lparr>scope := 2, linearizedBaseContracts := [1]\<rparr>
         else if r = 2 then
           mkNode 3 ''StructuredDocumentation'' (Some 1) [] [(''text'', VStr ''first'')]
         else if r = 3 then
           mkNode 4 ''StructuredDocumentation'' (Some 1) [] [(''text'', VStr ''second'')]
         else detachedNode),
      ctxs = (\<lambda>c. if c = 0 then [1 \<mapsto> 1, 2 \<mapsto> 0, 3 \<mapsto> 2, 4 \<mapsto> 3] else Map.empty)\<rparr>"

text \<open>
  The tree of \<^verbatim>\<open>uint256 constant X = now;\<close>: source unit (reference 0, id 5), variable
  declaration (1, id 4), type name (2, id 2) and the identifier \<open>now\<close> (3, id 3), whose
  \<open>referencedDeclaration\<close> is the id of a built-in that no node of the context carries,
  so that its view is \<open>undefined\<close>.
\<close>

definition danglingHeap :: heap where
  "danglingHeap =
     \<lparr>nodes = (\<lambda>r.
         if r = 0 then mkNode 5 ''SourceUnit'' None [1] (sourceUnitProps ''X'' 4 1 ''vVariables'')
         else if r = 1 then
           mkNode 4 ''VariableDeclaration'' (Some 0) [2, 3]
             [(''name'', VStr ''X''), (''scope'', VNum 5), (''vScope'', VNode 0),
              (''vType'', VNode 2), (''vValue'', VNode 3)]
         else if r = 2 then
           mkNode 2 ''ElementaryTypeName'' (Some 1) [] [(''name'', VStr ''uint256'')]
         else if r = 3 then
           mkNode 3 ''Identifier'' (Some 1) []
             [(''name'', VStr ''now''), (''referencedDeclaration'', VNum (- 28))]
         else detachedNode),
      ctxs = (\<lambda>c. if c = 0 then [5 \<mapsto> 0, 4 \<mapsto> 1, 2 \<mapsto> 2, 3 \<mapsto> 3] else Map.empty)\<rparr>"

text \<open>The same tree with the identifier's parent pointer cleared, and with a bare \<open>ASTNode\<close> in its place.\<close>

definition orphanHeap :: heap where
  "orphanHeap = updNode danglingHeap 3 (\<lambda>n. n\<lparr>parent := None\<rparr>)"

definition bareNodeHeap :: heap where
  "bareNodeHeap = updNode danglingHeap 3 (\<lambda>n. n\<lparr>kind := ''ASTNode''\<rparr>)"

text \<open>
  The same tree with the id of the declaration itself in the \<open>scope\<close> of the
  declaration, while \<open>vScope\<close> is the source unit.
\<close>

definition mismatchHeap :: heap where
  "mismatchHeap = updNode danglingHeap 1
     (\<lambda>n. n\<lparr>props := mkProps [(''name'', VStr ''X''), (''scope'', VNum 4), (''vScope'', VNode 0),
              (''vType'', VNode 2), (''vValue'', VNode 3)]\<rparr>)"



definition modernError :: json where
  "modernError =
     JObj [(''severity'', JStr ''error''), (''type'', JStr ''TypeError''),
           (''formattedMessage'', JStr ''a.sol:2:1: TypeError: bad'')]"

definition failedOutput :: json where
  "failedOutput =
     JObj [(''sources'',
            JObj [(''a.sol'', JObj [(''ast'', JObj [(''nodeType'', JStr ''SourceUnit'')])])]),
           (''errors'',
            JArr [JObj [(''severity'', JStr ''warning''),
                        (''formattedMessage'', JStr ''a.sol:1:1: Warning: unused'')],
                  modernError])]"

definition legacyFailedOutput :: json where
  "legacyFailedOutput =
     JObj [(''sources'',
            JObj [(''a.sol'', JObj [(''legacyAST'', JObj [(''name'', JStr ''SourceUnit'')])])]),
           (''errors'',
            JArr [JStr ''a.sol:1:1: Warning: unused'', JStr ''a.sol:2:1: Error: bad''])]"

text \<open>
  The trees of the unit tests of \<open>copy\<close>: an enum definition (id 2) with one value
  (id 1), and an event definition (id 3) whose constructor took the parameters (id 1)
  before the documentation (id 2) and whose \<open>children\<close> lists the documentation
  first; each in the context of the factory that made it, and with its copy as the
  tests expect it. \<open>showText\<close> is a printer of values that shows strings and
  booleans.
\<close>

definition enumTree :: subtree where
  "enumTree =
     Subtree 2 ''EnumDefinition'' ''0:0:0'' [(''name'', VStr ''MyEnum'')] []
       [(0, Subtree 1 ''EnumValue'' ''0:0:0'' [(''name'', VStr ''MyValue'')] [] [])]"

definition enumContext :: astContext where
  "enumContext = \<lparr>nextId = 3, registered = [1, 2]\<rparr>"

definition eventTree :: subtree where
  "eventTree =
     Subtree 3 ''EventDefinition'' ''0:0:0''
       [(''anonymous'', VBool False), (''name'', VStr ''MyEvent'')] []
       [(1, Subtree 1 ''ParameterList'' ''0:0:0'' [] [] []),
        (0, Subtree 2 ''StructuredDocumentation'' ''0:0:0''
              [(''text'', VStr ''Doc string'')] [] [])]"

definition eventContext :: astContext where
  "eventContext = \<lparr>nextId = 4, registered = [1, 2, 3]\<rparr>"

definition enumCopy :: subtree where
  "enumCopy =
     Subtree 4 ''EnumDefinition'' ''0:0:0'' [(''name'', VStr ''MyEnum'')] []
       [(0, Subtree 3 ''EnumValue'' ''0:0:0'' [(''name'', VStr ''MyValue'')] [] [])]"

definition eventCopy :: subtree where
  "eventCopy =
     Subtree 6 ''EventDefinition'' ''0:0:0''
       [(''anonymous'', VBool False), (''name'', VStr ''MyEvent'')] []
       [(1, Subtree 4 ''ParameterList'' ''0:0:0'' [] [] []),
        (0, Subtree 5 ''StructuredDocumentation'' ''0:0:0''
              [(''text'', VStr ''Doc string'')] [] [])]"

text \<open>
  The struct definition of the tests (id 3, in the contract of id 2) with one member
  (id 5) of an elementary type (id 4): the \<open>scope\<close> of the member names the struct,
  the \<open>scope\<close> of the struct a node outside the subtree.
\<close>

definition structTree :: subtree where
  "structTree =
     Subtree 3 ''StructDefinition'' ''0:0:0'' [(''name'', VStr ''MyStruct'')]
       [(''scope'', RefId 2)]
       [(0, Subtree 5 ''VariableDeclaration'' ''0:0:0'' [(''name'', VStr ''a'')]
              [(''scope'', RefId 3)]
              [(0, Subtree 4 ''ElementaryTypeName'' ''0:0:0'' [(''name'', VStr ''uint8'')]
                     [] [])])]"

definition structContext :: astContext where
  "structContext = \<lparr>nextId = 6, registered = [1, 2, 3, 4, 5]\<rparr>"

definition structCopy :: subtree where
  "structCopy =
     Subtree 8 ''StructDefinition'' ''0:0:0'' [(''name'', VStr ''MyStruct'')]
       [(''scope'', RefId 2)]
       [(0, Subtree 7 ''VariableDeclaration'' ''0:0:0'' [(''name'', VStr ''a'')]
              [(''scope'', RefId 8)]
              [(0, Subtree 6 ''ElementaryTypeName'' ''0:0:0'' [(''name'', VStr ''uint8'')]
                     [] [])])]"


text \<open>A compiler that cannot be found and a version strategy that yields no version.\<close>

definition noCompiler :: "(string \<times> json option) list \<Rightarrow> string \<Rightarrow> error + json" where
  "noCompiler fs v = Inl (Error (CompilerNotFound v))"

definition noVersions :: "json option list \<Rightarrow> string list" where
  "noVersions srcs = []"


section \<open>Properties of the sanity checker\<close>

subsection \<open>Sequencing and the walk\<close>

lemma seqE_ok: "seqE xs = Inr () \<longleftrightarrow> (\<forall>x\<in>set xs. x = Inr ())"
  by (induction xs) (auto split: sum.splits)

lemma checkNodes_ok:
  "checkNodes h c ns = Inr () \<longleftrightarrow> (\<forall>n\<in>set ns. checkNode h c n = Inr ())"
  by (induction ns) (auto split: sum.splits)

lemma checkNodes_total: "checkNodes h c ns = Inr () \<or> (\<exists>e. checkNodes h c ns = Inl e)"
  by (cases "checkNodes h c ns") auto


lemma those_map_Some:
  "those (map f xs) = Some ys \<Longrightarrow>
     ys = map (\<lambda>x. the (f x)) xs \<and> (\<forall>x\<in>set xs. f x = Some (the (f x)))"
proof (induction xs arbitrary: ys)
  case Nil
  then show ?case by simp
next
  case (Cons a xs)
  then show ?case by (auto split: option.splits)
qed

lemma reach_unfold:
  "{n. (r, n) \<in> (childRel h)\<^sup>*} =
     insert r (\<Union>c\<in>set (children (nodes h r)). {n. (c, n) \<in> (childRel h)\<^sup>*})"
proof (intro set_eqI iffI)
  fix n assume "n \<in> {n. (r, n) \<in> (childRel h)\<^sup>*}"
  then have "(r, n) \<in> (childRel h)\<^sup>*" by simp
  then show "n \<in> insert r (\<Union>c\<in>set (children (nodes h r)). {n. (c, n) \<in> (childRel h)\<^sup>*})"
    by (cases rule: converse_rtranclE) (auto simp: childRel_def)
next
  fix n assume "n \<in> insert r (\<Union>c\<in>set (children (nodes h r)). {n. (c, n) \<in> (childRel h)\<^sup>*})"
  then show "n \<in> {n. (r, n) \<in> (childRel h)\<^sup>*}"
    by (auto simp: childRel_def intro: converse_rtrancl_into_rtrancl)
qed

text \<open>
  A walk that ends enumerates exactly the nodes reachable from its root through the
  children lists.
\<close>

lemma getChildren_reachable:
  "getChildren fuel h r = Some ns \<Longrightarrow> set ns = {n. (r, n) \<in> (childRel h)\<^sup>*}"
proof (induction fuel arbitrary: r ns)
  case 0
  then show ?case by simp
next
  case (Suc k)
  let ?cs = "children (nodes h r)"
  from Suc.prems obtain xss where
    xss: "those (map (getChildren k h) ?cs) = Some xss" and ns: "ns = r # concat xss"
    by auto
  from those_map_Some[OF xss] have
    eq: "xss = map (\<lambda>c. the (getChildren k h c)) ?cs" and
    some: "\<forall>c\<in>set ?cs. getChildren k h c = Some (the (getChildren k h c))" by auto
  have "\<And>c. c \<in> set ?cs \<Longrightarrow> set (the (getChildren k h c)) = {n. (c, n) \<in> (childRel h)\<^sup>*}"
    using Suc.IH some by blast
  then have "set (concat xss) = (\<Union>c\<in>set ?cs. {n. (c, n) \<in> (childRel h)\<^sup>*})"
    unfolding eq by auto
  then show ?case unfolding ns by (subst reach_unfold) simp
qed

text \<open>More fuel does not change the result of a walk that ended.\<close>

lemma those_map_cong_Some:
  "those (map f xs) = Some ys \<Longrightarrow> (\<And>x y. x \<in> set xs \<Longrightarrow> f x = Some y \<Longrightarrow> g x = Some y) \<Longrightarrow>
     those (map g xs) = Some ys"
proof (induction xs arbitrary: ys)
  case Nil
  then show ?case by simp
next
  case (Cons a xs)
  then show ?case by (auto split: option.splits)
qed

lemma getChildren_more_fuel:
  "getChildren k h r = Some ns \<Longrightarrow> getChildren (Suc k) h r = Some ns"
proof (induction k arbitrary: r ns)
  case 0
  then show ?case by simp
next
  case (Suc k)
  from Suc.prems obtain xss where
    xss: "those (map (getChildren k h) (children (nodes h r))) = Some xss"
    and ns: "ns = r # concat xss" by auto
  have "those (map (getChildren (Suc k) h) (children (nodes h r))) = Some xss"
    using those_map_cong_Some[OF xss] Suc.IH by blast
  then show ?case using ns by simp
qed

text \<open>Below a node with a finite tree under it the walk ends.\<close>

lemma getChildren_fuel_le:
  "getChildren k h r = Some ns \<Longrightarrow> k \<le> m \<Longrightarrow> getChildren m h r = Some ns"
proof (induction m)
  case 0
  then show ?case by simp
next
  case (Suc m)
  show ?case
  proof (cases "k = Suc m")
    case True
    then show ?thesis using Suc.prems by simp
  next
    case False
    then have "k \<le> m" using Suc.prems by simp
    then have "getChildren m h r = Some ns" using Suc by blast
    then show ?thesis by (rule getChildren_more_fuel)
  qed
qed

lemma getChildren_unique:
  assumes "getChildren k h r = Some ns" and "getChildren m h r = Some ns'"
  shows "ns = ns'"
proof -
  have "getChildren (max k m) h r = Some ns"
    using assms(1) by (rule getChildren_fuel_le) simp
  moreover have "getChildren (max k m) h r = Some ns'"
    using assms(2) by (rule getChildren_fuel_le) simp
  ultimately show ?thesis by simp
qed

lemma those_map_total:
  "\<forall>x\<in>set xs. \<exists>y. f x = Some y \<Longrightarrow> \<exists>ys. those (map f xs) = Some ys"
  by (induction xs) auto

lemma uniform_fuel:
  "\<forall>ch\<in>set cs. \<exists>k ns. getChildren k h ch = Some ns \<Longrightarrow>
     \<exists>K. \<forall>ch\<in>set cs. \<exists>ns. getChildren K h ch = Some ns"
proof (induction cs)
  case Nil
  then show ?case by simp
next
  case (Cons a cs)
  then obtain K where K: "\<forall>ch\<in>set cs. \<exists>ns. getChildren K h ch = Some ns" by auto
  from Cons.prems obtain k ns where k: "getChildren k h a = Some ns" by auto
  have "getChildren (max k K) h a = Some ns"
    using k by (rule getChildren_fuel_le) simp
  moreover have "\<exists>ns. getChildren (max k K) h ch = Some ns" if "ch \<in> set cs" for ch
  proof -
    from K that obtain ms where "getChildren K h ch = Some ms" by blast
    then have "getChildren (max k K) h ch = Some ms" by (rule getChildren_fuel_le) simp
    then show ?thesis by blast
  qed
  ultimately have "\<forall>ch\<in>set (a # cs). \<exists>ns. getChildren (max k K) h ch = Some ns"
    by auto
  then show ?case by blast
qed

lemma walk_ends: "finiteBelow h r \<Longrightarrow> \<exists>k ns. getChildren k h r = Some ns"
proof (induction rule: finiteBelow.induct)
  case (below r)
  then have "\<forall>ch\<in>set (children (nodes h r)). \<exists>k ns. getChildren k h ch = Some ns" by blast
  from uniform_fuel[OF this] obtain K where
    "\<forall>ch\<in>set (children (nodes h r)). \<exists>ns. getChildren K h ch = Some ns" by blast
  from those_map_total[OF this] obtain xss where
    "those (map (getChildren K h) (children (nodes h r))) = Some xss" by blast
  then have "getChildren (Suc K) h r = Some (r # concat xss)" by simp
  then show ?case by blast
qed

text \<open>
  Conversely a walk that ends was a walk of a finite tree; the walk of a node that is
  among its own children ends for no bound.
\<close>

lemma walk_finite: "getChildren k h r = Some ns \<Longrightarrow> finiteBelow h r"
proof (induction k arbitrary: r ns)
  case 0
  then show ?case by simp
next
  case (Suc k)
  from Suc.prems obtain xss where
    "those (map (getChildren k h) (children (nodes h r))) = Some xss" by auto
  from those_map_Some[OF this] have
    "\<forall>ch\<in>set (children (nodes h r)). getChildren k h ch = Some (the (getChildren k h ch))"
    by blast
  then have "finiteBelow h ch" if "ch \<in> set (children (nodes h r))" for ch
    using Suc.IH that by blast
  then show ?case by (rule finiteBelow.intros)
qed

lemma finiteBelow_iff_walk_ends:
  "finiteBelow h r \<longleftrightarrow> (\<exists>k ns. getChildren k h r = Some ns)"
  using walk_ends walk_finite by blast

lemma those_map_None: "x \<in> set xs \<Longrightarrow> f x = None \<Longrightarrow> those (map f xs) = None"
  by (induction xs) (auto split: option.splits)

lemma walk_of_own_child: "r \<in> set (children (nodes h r)) \<Longrightarrow> getChildren k h r = None"
proof (induction k)
  case 0
  then show ?case by simp
next
  case (Suc k)
  then have "those (map (getChildren k h) (children (nodes h r))) = None"
    by (auto intro: those_map_None)
  then show ?case by simp
qed

text \<open>
  On a finite tree \<open>checkSane\<close> has one result: every bound from some bound on gives
  it, and a smaller bound gives it or no result.
\<close>

lemma checkSane_result:
  assumes "finiteBelow h unit"
  shows "\<exists>fuel ns. (\<forall>k\<ge>fuel. getChildren k h unit = Some ns
                        \<and> checkSane k h unit c = Some (checkNodes h c ns))
           \<and> (\<forall>k. checkSane k h unit c = None
                  \<or> checkSane k h unit c = Some (checkNodes h c ns))
           \<and> set ns = {n. (unit, n) \<in> (childRel h)\<^sup>*}"
proof -
  from walk_ends[OF assms] obtain fuel ns where w: "getChildren fuel h unit = Some ns"
    by blast
  have 1: "\<forall>k\<ge>fuel. getChildren k h unit = Some ns
             \<and> checkSane k h unit c = Some (checkNodes h c ns)"
    using getChildren_fuel_le[OF w] by (simp add: checkSane_def)
  have 2: "checkSane k h unit c = None \<or> checkSane k h unit c = Some (checkNodes h c ns)"
    for k
  proof (cases "getChildren k h unit")
    case None
    then show ?thesis by (simp add: checkSane_def)
  next
    case (Some ns')
    then have "ns' = ns" using w by (rule getChildren_unique)
    then show ?thesis using Some by (simp add: checkSane_def)
  qed
  show ?thesis using 1 2 getChildren_reachable[OF w] by blast
qed

text \<open>The example trees are finite, and their unit reaches its first child.\<close>

lemma danglingHeap_children:
  "children (nodes danglingHeap 0) = [1]" "children (nodes danglingHeap 1) = [2, 3]"
  "children (nodes danglingHeap 2) = []" "children (nodes danglingHeap 3) = []"
  by code_simp+


lemma mismatchHeap_children:
  "children (nodes mismatchHeap 0) = [1]" "children (nodes mismatchHeap 1) = [2, 3]"
  "children (nodes mismatchHeap 2) = []" "children (nodes mismatchHeap 3) = []"
  by code_simp+

lemma small_tree_finite:
  assumes "children (nodes h 0) = [1]" and "children (nodes h 1) = [2, 3]"
    and "children (nodes h 2) = []" and "children (nodes h 3) = []"
  shows "finiteBelow h 0" and "(0, 1) \<in> (childRel h)\<^sup>*"
proof -
  have 2: "finiteBelow h 2" by (rule finiteBelow.intros) (use assms(3) in simp)
  have 3: "finiteBelow h 3" by (rule finiteBelow.intros) (use assms(4) in simp)
  have 1: "finiteBelow h 1" by (rule finiteBelow.intros) (use assms(2) 2 3 in auto)
  show "finiteBelow h 0" by (rule finiteBelow.intros) (use assms(1) 1 in auto)
  have "(0, 1) \<in> childRel h" using assms(1) by (simp add: childRel_def)
  then show "(0, 1) \<in> (childRel h)\<^sup>*" by (rule r_into_rtrancl)
qed

subsection \<open>Parent pointers\<close>


lemma checkParents_err:
  "checkParents h r cs = Inl e \<Longrightarrow>
     \<exists>ch\<in>set cs. parent (nodes h ch) \<noteq> Some r \<and>
        e = InsaneASTError (WrongParent ch r (parent (nodes h ch)))"
  by (induction cs) (auto split: if_splits)








subsection \<open>Reference fields and their views\<close>

lemma matchLoop_ok:
  "length xs = length ys \<Longrightarrow> matchLoop h r f vf idx xs ys = Inr () \<Longrightarrow>
     list_all2 (\<lambda>x y. case y of VNode n \<Rightarrow> x = VNum (nid (nodes h n)) | _ \<Rightarrow> False) xs ys"
proof (induction xs ys arbitrary: idx rule: list_induct2)
  case Nil
  then show ?case by simp
next
  case (Cons x xs y ys)
  then show ?case by (auto split: jsval.splits if_splits)
qed

lemma match_ok:
  "checkFieldAndVFieldMatch h r f vf = Inr () \<Longrightarrow> fieldsAgree h r f vf"
  unfolding checkFieldAndVFieldMatch_def fieldsAgree_def viewAgrees_def
  by (auto split: sum.splits jsval.splits if_splits dest: matchLoop_ok)

lemma checkNode_kind:
  "checkNode h c n = Inr () \<Longrightarrow> kind (nodes h n) \<notin> set leafKinds \<Longrightarrow>
     checkKind h c n (kind (nodes h n)) = Inr ()"
  by (auto simp: checkNode_def split: if_splits sum.splits)

lemma checkReference_ok:
  "checkReference h c n = Inr () \<Longrightarrow> hasResolvedReference h n \<Longrightarrow>
     fieldsAgree h n ''referencedDeclaration'' ''vReferencedDeclaration''"
  by (simp add: checkReference_def seqE_ok match_ok del: seqE.simps)

lemma pairs_Import:
  "kind (nodes h n) = ''ImportDirective'' \<Longrightarrow> checkNode h c n = Inr () \<Longrightarrow>
     fieldsAgree h n ''scope'' ''vScope'' \<and> fieldsAgree h n ''sourceUnit'' ''vSourceUnit''"
  by (drule checkNode_kind)
    (simp_all add: leafKinds_def checkKind_def checkImport_def seqE_ok match_ok del: seqE.simps)

lemma pairs_Contract:
  "kind (nodes h n) = ''ContractDefinition'' \<Longrightarrow> checkNode h c n = Inr () \<Longrightarrow>
     fieldsAgree h n ''scope'' ''vScope''
     \<and> fieldsAgree h n ''linearizedBaseContracts'' ''vLinearizedBaseContracts''
     \<and> fieldsAgree h n ''usedErrors'' ''vUsedErrors''"
  by (drule checkNode_kind)
    (simp_all add: leafKinds_def checkKind_def checkContract_def seqE_ok match_ok del: seqE.simps)

lemma pairs_scope:
  "kind (nodes h n) = ''FunctionDefinition'' \<or> kind (nodes h n) = ''StructDefinition''
     \<or> kind (nodes h n) = ''VariableDeclaration'' \<Longrightarrow> checkNode h c n = Inr () \<Longrightarrow>
     fieldsAgree h n ''scope'' ''vScope''"
  by (drule checkNode_kind)
    (auto simp add: leafKinds_def checkKind_def seqE_ok match_ok simp del: seqE.simps)

lemma pairs_Return:
  "kind (nodes h n) = ''Return'' \<Longrightarrow> checkNode h c n = Inr () \<Longrightarrow>
     fieldsAgree h n ''functionReturnParameters'' ''vFunctionReturnParameters''"
  by (drule checkNode_kind)
    (simp_all add: leafKinds_def checkKind_def seqE_ok match_ok del: seqE.simps)

lemma pairs_UserDefinedTypeName:
  "kind (nodes h n) = ''UserDefinedTypeName'' \<Longrightarrow> checkNode h c n = Inr () \<Longrightarrow>
     fieldsAgree h n ''referencedDeclaration'' ''vReferencedDeclaration''"
  by (drule checkNode_kind)
    (simp_all add: leafKinds_def checkKind_def seqE_ok match_ok del: seqE.simps)

lemma pairs_reference:
  "kind (nodes h n) = ''Identifier'' \<or> kind (nodes h n) = ''IdentifierPath''
     \<or> kind (nodes h n) = ''MemberAccess'' \<Longrightarrow> hasResolvedReference h n \<Longrightarrow>
   checkNode h c n = Inr () \<Longrightarrow>
     fieldsAgree h n ''referencedDeclaration'' ''vReferencedDeclaration''"
  by (drule checkNode_kind)
    (auto simp add: leafKinds_def checkKind_def seqE_ok checkReference_ok simp del: seqE.simps)

lemma checkNode_pairs:
  assumes "checkNode h c n = Inr ()" and "(f, vf) \<in> set (checkedPairs h n)"
  shows "fieldsAgree h n f vf"
  using assms(2) pairs_Import[OF _ assms(1)] pairs_Contract[OF _ assms(1)]
    pairs_scope[OF _ assms(1)] pairs_Return[OF _ assms(1)]
    pairs_UserDefinedTypeName[OF _ assms(1)] pairs_reference[OF _ _ assms(1)]
  by (auto simp: checkedPairs_def Let_def split: if_splits)

text \<open>
  Claim C3, as stated, fails: \<open>checkSane\<close> accepts the tree of
  \<^verbatim>\<open>uint256 constant X = now;\<close>, whose identifier holds the scalar id \<open>-28\<close> in
  \<open>referencedDeclaration\<close> while the paired view \<open>vReferencedDeclaration\<close> is
  \<open>undefined\<close>, not a node of that id.
\<close>

theorem dangling_reference_accepted:
  "checkSane 3 danglingHeap 0 0 = Some (Inr ())
   \<and> getChildren 3 danglingHeap 0 = Some [0, 1, 2, 3]
   \<and> getField danglingHeap 3 ''referencedDeclaration'' = Inr (VNum (- 28))
   \<and> getField danglingHeap 3 ''vReferencedDeclaration'' = Inr VUndefined
   \<and> \<not> fieldsAgree danglingHeap 3 ''referencedDeclaration'' ''vReferencedDeclaration''"
  by code_simp

text \<open>
  Claim C3, amended. For every source unit with a finite tree under it \<open>checkSane\<close>
  has a result: every bound of the walk from some bound on gives it, and a smaller
  bound gives it or none. When the result is a return, then for every node reachable
  from the unit and every pair \<open>(f, vf)\<close> that the checker compares on a node of that
  class (\<open>checkedPairs\<close>: \<open>scope\<close> and \<open>sourceUnit\<close> of an import; \<open>scope\<close>,
  \<open>linearizedBaseContracts\<close> and \<open>usedErrors\<close> of a contract; \<open>scope\<close> of a function,
  struct or variable; \<open>functionReturnParameters\<close> of a return;
  \<open>referencedDeclaration\<close> of a user-defined type name, and of an identifier,
  identifier path or member access only when it is not \<open>null\<close> and its view is not
  \<open>undefined\<close>), the field and the view agree: a scalar id with a node of that id, a
  list of ids with a list of nodes of the same length and the same ids index by index.
  A checked pair that does not agree makes the result an error.
\<close>

theorem checkSane_checked_pairs_agree:
  assumes "finiteBelow h unit" and "(unit, n) \<in> (childRel h)\<^sup>*"
    and "(f, vf) \<in> set (checkedPairs h n)"
  shows "\<exists>fuel res.
      (\<forall>k\<ge>fuel. checkSane k h unit c = Some res)
    \<and> (\<forall>k. checkSane k h unit c = None \<or> checkSane k h unit c = Some res)
    \<and> (res = Inr () \<longrightarrow> fieldsAgree h n f vf)
    \<and> (\<not> fieldsAgree h n f vf \<longrightarrow> (\<exists>e. res = Inl e))"
proof -
  from checkSane_result[OF assms(1), of c] obtain fuel ns where
    run: "\<forall>k\<ge>fuel. getChildren k h unit = Some ns
            \<and> checkSane k h unit c = Some (checkNodes h c ns)"
    and any: "\<forall>k. checkSane k h unit c = None
                \<or> checkSane k h unit c = Some (checkNodes h c ns)"
    and reach: "set ns = {n. (unit, n) \<in> (childRel h)\<^sup>*}" by blast
  have mem: "n \<in> set ns" using reach assms(2) by simp
  have ok: "checkNodes h c ns = Inr () \<longrightarrow> fieldsAgree h n f vf"
    using mem assms(3) by (auto simp: checkNodes_ok intro: checkNode_pairs)
  have err: "\<not> fieldsAgree h n f vf \<longrightarrow> (\<exists>e. checkNodes h c ns = Inl e)"
    using ok checkNodes_total[of h c ns] by blast
  show ?thesis using run any ok err by blast
qed

theorem checkSane_checked_pairs_agree_witness:
  "finiteBelow danglingHeap 0 \<and> (0, 1) \<in> (childRel danglingHeap)\<^sup>*
   \<and> checkedPairs danglingHeap 1 = [(''scope'', ''vScope'')]
   \<and> checkSane 3 danglingHeap 0 0 = Some (Inr ())
   \<and> getField danglingHeap 1 ''scope'' = Inr (VNum 5)
   \<and> getField danglingHeap 1 ''vScope'' = Inr (VNode 0)
   \<and> fieldsAgree danglingHeap 1 ''scope'' ''vScope''
   \<and> finiteBelow mismatchHeap 0 \<and> (0, 1) \<in> (childRel mismatchHeap)\<^sup>*
   \<and> checkedPairs mismatchHeap 1 = [(''scope'', ''vScope'')]
   \<and> \<not> fieldsAgree mismatchHeap 1 ''scope'' ''vScope''
   \<and> (\<exists>fuel. \<forall>k\<ge>fuel. checkSane k mismatchHeap 0 0
            = Some (Inl (InsaneASTError (FieldDiffersFromView 1 ''scope'' ''vScope''))))"
proof -
  note d = small_tree_finite[OF danglingHeap_children]
  note m = small_tree_finite[OF mismatchHeap_children]
  have pairs: "checkedPairs danglingHeap 1 = [(''scope'', ''vScope'')]" by code_simp
  then have pair: "(''scope'', ''vScope'') \<in> set (checkedPairs danglingHeap 1)" by simp
  have pairs': "checkedPairs mismatchHeap 1 = [(''scope'', ''vScope'')]" by code_simp
  then have pair': "(''scope'', ''vScope'') \<in> set (checkedPairs mismatchHeap 1)" by simp
  have ok: "checkSane 3 danglingHeap 0 0 = Some (Inr ())" by code_simp
  have f: "getField danglingHeap 1 ''scope'' = Inr (VNum 5)" by code_simp
  have vf: "getField danglingHeap 1 ''vScope'' = Inr (VNode 0)" by code_simp
  have dis: "\<not> fieldsAgree mismatchHeap 1 ''scope'' ''vScope''" by code_simp
  have bad: "checkSane 3 mismatchHeap 0 0
               = Some (Inl (InsaneASTError (FieldDiffersFromView 1 ''scope'' ''vScope'')))"
    by code_simp
  from checkSane_checked_pairs_agree[OF d pair, of 0] obtain fuel res where
    "\<forall>k\<ge>fuel. checkSane k danglingHeap 0 0 = Some res"
    and any: "\<forall>k. checkSane k danglingHeap 0 0 = None
                \<or> checkSane k danglingHeap 0 0 = Some res"
    and acc: "res = Inr () \<longrightarrow> fieldsAgree danglingHeap 1 ''scope'' ''vScope''"
    by (elim exE conjE) (rule that)
  from any have "checkSane 3 danglingHeap 0 0 = None \<or> checkSane 3 danglingHeap 0 0 = Some res"
    by (rule spec)
  with ok have "res = Inr ()" by simp
  with acc have 1: "fieldsAgree danglingHeap 1 ''scope'' ''vScope''" by simp
  from checkSane_checked_pairs_agree[OF m pair', of 0] obtain fuel' res' where
    run: "\<forall>k\<ge>fuel'. checkSane k mismatchHeap 0 0 = Some res'"
    and any': "\<forall>k. checkSane k mismatchHeap 0 0 = None
                 \<or> checkSane k mismatchHeap 0 0 = Some res'"
    by (elim exE conjE) (rule that)
  from any' have "checkSane 3 mismatchHeap 0 0 = None \<or> checkSane 3 mismatchHeap 0 0 = Some res'"
    by (rule spec)
  with bad have
    "res' = Inl (InsaneASTError (FieldDiffersFromView 1 ''scope'' ''vScope''))" by simp
  with run have 2: "\<exists>fuel. \<forall>k\<ge>fuel. checkSane k mismatchHeap 0 0
            = Some (Inl (InsaneASTError (FieldDiffersFromView 1 ''scope'' ''vScope'')))"
    by blast
  show ?thesis by (intro conjI) fact+
qed

subsection \<open>Textual documentation of a contract\<close>

lemma collectFields_first_error:
  "collectField h r direct f = Inl e \<Longrightarrow> collectFields h r direct (f # fs) = Inl e"
  by simp

text \<open>
  Whatever the rest of the tree, the field list of the contract branch starts with
  \<open>documentation\<close>, and a documentation that is a string is neither \<open>undefined\<close>, a
  node, an array nor a map: \<open>checkDirectChildren\<close> throws a plain \<open>Error\<close>. So no
  contract with textual documentation passes the checker.
\<close>

lemma contract_text_documentation_throws:
  assumes "kind (nodes h r) = ''ContractDefinition''" and "docString (nodes h r) = VStr s"
  shows "checkDirectChildren h r (withDoc h r contractFields) =
           Inl (Error (NeitherNodeNorArray r ''documentation''))"
proof -
  have doc: "getField h r ''documentation'' = Inr (VStr s)"
    using assms by (simp add: getField_def contractField_def documentation_def)
  then have nodoc: "\<not> isStructuredDoc h r"
    by (simp add: isStructuredDoc_def instanceOf_def)
  have "collectField h r (children (nodes h r)) ''documentation'' =
          Inl (Error (NeitherNodeNorArray r ''documentation''))"
    using doc by (simp add: collectField_def)
  then show ?thesis
    using nodoc by (simp add: checkDirectChildren_def withDoc_def contractFields_def)
qed

lemma contract_text_documentation_never_sane:
  assumes "kind (nodes h r) = ''ContractDefinition''" and "docString (nodes h r) = VStr s"
  shows "checkNode h c r \<noteq> Inr ()"
proof
  assume "checkNode h c r = Inr ()"
  then have "checkKind h c r (kind (nodes h r)) = Inr ()"
    using assms(1) by (intro checkNode_kind) (simp_all add: leafKinds_def)
  then have "checkContract h c r = Inr ()"
    using assms(1) by (simp add: checkKind_def)
  then have "checkDirectChildren h r (withDoc h r contractFields) = Inr ()"
    by (simp add: checkContract_def seqE_ok del: seqE.simps)
  then show False using contract_text_documentation_throws[OF assms] by simp
qed

text \<open>
  Claim C1 does not hold of the code: \<open>checkSane\<close> raises an error on the freshly read
  legacy tree of \<^verbatim>\<open>/** doc */ contract C {}\<close>, whose contract has the textual
  documentation \<open>doc\<close>. The error is the plain \<open>Error\<close> of \<open>checkDirectChildren\<close> for the
  field \<open>documentation\<close> of the contract.
\<close>

theorem checkSane_rejects_textual_contract_documentation:
  "checkSane 2 legacyHeap 0 0 =
     Some (Inl (Error (NeitherNodeNorArray 1 ''documentation'')))"
  by code_simp

text \<open>The same tree is accepted once the documentation string is taken away.\<close>

lemma checkSane_accepts_undocumented_contract:
  "checkSane 2 undocumentedHeap 0 0 = Some (Inr ())"
  by code_simp

text \<open>
  The sibling branches push \<open>documentation\<close> only when it is a
  \<open>StructuredDocumentation\<close>: a variable declaration with textual documentation is
  accepted.
\<close>

lemma checkSane_accepts_textual_variable_documentation:
  "checkSane 3
     (updNode danglingHeap 1
        (\<lambda>n. n\<lparr>props := (props n)(''documentation'' := VStr ''doc'')\<rparr>)) 0 0
   = Some (Inr ())"
  by code_simp

subsection \<open>\<open>isSane\<close>\<close>

text \<open>
  Claim C7. \<open>isSane\<close> returns \<open>true\<close> exactly when \<open>checkSane\<close> returns without
  raising, returns \<open>false\<close> exactly when \<open>checkSane\<close> raises an \<open>InsaneASTError\<close>, and
  throws exactly the exception of \<open>checkSane\<close> when that is any other exception; it
  never throws an \<open>InsaneASTError\<close>, and it ends exactly when \<open>checkSane\<close> ends.
\<close>

theorem isSane_wraps_checkSane:
  "((isSane fuel h unit c = Some (Inr True)) = (checkSane fuel h unit c = Some (Inr ())))
   \<and> ((isSane fuel h unit c = Some (Inr False))
        = (\<exists>p. checkSane fuel h unit c = Some (Inl (InsaneASTError p))))
   \<and> (\<forall>e. (\<forall>p. e \<noteq> InsaneASTError p) \<longrightarrow>
          (isSane fuel h unit c = Some (Inl e)) = (checkSane fuel h unit c = Some (Inl e)))
   \<and> (\<forall>p. isSane fuel h unit c \<noteq> Some (Inl (InsaneASTError p)))
   \<and> ((isSane fuel h unit c = None) = (checkSane fuel h unit c = None))"
  by (auto simp: isSane_def split: option.splits sum.splits error.splits)

theorem isSane_wraps_checkSane_witness:
  "isSane 3 danglingHeap 0 0 = Some (Inr True)
   \<and> isSane 3 orphanHeap 0 0 = Some (Inr False)
   \<and> isSane 3 bareNodeHeap 0 0 = Some (Inl (Error (UnknownNodeType 3)))
   \<and> isSane 1 danglingHeap 0 0 = None"
proof -
  have a: "checkSane 3 danglingHeap 0 0 = Some (Inr ())" by code_simp
  have b: "checkSane 3 orphanHeap 0 0 = Some (Inl (InsaneASTError (WrongParent 3 1 None)))"
    by code_simp
  have c: "checkSane 3 bareNodeHeap 0 0 = Some (Inl (Error (UnknownNodeType 3)))"
    by code_simp
  have d: "checkSane 1 danglingHeap 0 0 = None" by code_simp
  have ne: "\<forall>p. Error (UnknownNodeType 3) \<noteq> InsaneASTError p" by simp
  from isSane_wraps_checkSane[of 3 danglingHeap 0 0] a
  have 1: "isSane 3 danglingHeap 0 0 = Some (Inr True)" by blast
  from isSane_wraps_checkSane[of 3 orphanHeap 0 0] b
  have 2: "isSane 3 orphanHeap 0 0 = Some (Inr False)" by blast
  from isSane_wraps_checkSane[of 3 bareNodeHeap 0 0] c ne
  have 3: "isSane 3 bareNodeHeap 0 0 = Some (Inl (Error (UnknownNodeType 3)))" by blast
  from isSane_wraps_checkSane[of 1 danglingHeap 0 0] d
  have 4: "isSane 1 danglingHeap 0 0 = None" by blast
  from 1 2 3 4 show ?thesis by simp
qed


section \<open>Properties of the accessors of \<open>ContractDefinition\<close>\<close>

subsection \<open>The setter \<open>vScope\<close>\<close>

text \<open>
  Claim C8. Assigning \<open>vScope\<close> validates before it mutates: when \<open>u\<close> is not
  contained in the context of the contract the assignment throws and the store, with
  the \<open>scope\<close> of the contract, is what it was; when \<open>u\<close> is contained the assignment
  returns, and afterwards the \<open>scope\<close> of the contract is the id of \<open>u\<close> and nothing
  else has changed.
\<close>

theorem set_vScope_validates_first:
  "(\<not> inContextOf h this u \<longrightarrow>
      (\<exists>e. fst (set_vScope h this u) = Inl e) \<and> snd (set_vScope h this u) = h)
   \<and> (inContextOf h this u \<longrightarrow>
      fst (set_vScope h this u) = Inr ()
      \<and> scope (nodes (snd (set_vScope h this u)) this)
          = nid (nodes (snd (set_vScope h this u)) u)
      \<and> nid (nodes (snd (set_vScope h this u)) u) = nid (nodes h u)
      \<and> snd (set_vScope h this u) = updNode h this (\<lambda>n. n\<lparr>scope := nid (nodes h u)\<rparr>))"
  by (auto simp: set_vScope_def inContextOf_def requiredContext_def updNode_def
      split: option.splits)

theorem set_vScope_validates_first_witness:
  "inContextOf documentedHeap 1 2
   \<and> scope (nodes documentedHeap 1) = 2
   \<and> fst (set_vScope documentedHeap 1 2) = Inr ()
   \<and> scope (nodes (snd (set_vScope documentedHeap 1 2)) 1) = 3
   \<and> \<not> inContextOf documentedHeap 1 7
   \<and> fst (set_vScope documentedHeap 1 7) = Inl (Error (NotInCurrentContext 7))
   \<and> snd (set_vScope documentedHeap 1 7) = documentedHeap"
proof -
  have inside: "inContextOf documentedHeap 1 2" by code_simp
  have outside: "\<not> inContextOf documentedHeap 1 7" by code_simp
  have before: "scope (nodes documentedHeap 1) = 2" by code_simp
  have id2: "nid (nodes documentedHeap 2) = 3" by code_simp
  have thrown: "fst (set_vScope documentedHeap 1 7) = Inl (Error (NotInCurrentContext 7))"
    by code_simp
  from set_vScope_validates_first[of documentedHeap 1 2] inside id2
  have ok: "fst (set_vScope documentedHeap 1 2) = Inr ()
          \<and> scope (nodes (snd (set_vScope documentedHeap 1 2)) 1) = 3" by (simp add: updNode_def)
  from set_vScope_validates_first[of documentedHeap 1 7] outside
  have unchanged: "snd (set_vScope documentedHeap 1 7) = documentedHeap" by blast
  from inside outside before thrown ok unchanged show ?thesis by simp
qed

subsection \<open>\<open>isSubclassOf\<close>\<close>

text \<open>
  Claim C10. For a contract with a context, \<open>isSubclassOf(other)\<close> returns \<open>true\<close> if
  and only if \<open>other\<close> occurs in the list obtained by looking up the ids of
  \<open>linearizedBaseContracts\<close> in the context one by one; in particular a contract that
  is registered in its context and whose linearization includes its own id is a
  subclass of itself.
\<close>

theorem isSubclassOf_linearization:
  assumes "nodeContext (nodes h this) = Some c"
  shows "isSubclassOf h this other =
           Inr (\<exists>i\<in>set (linearizedBaseContracts (nodes h this)). locate h c i = Some other)
         \<and> vLinearizedBaseContracts h this =
             Inr (map (\<lambda>i. nodeOrUndefined (locate h c i)) (linearizedBaseContracts (nodes h this)))
         \<and> (contains h c this
              \<and> nid (nodes h this) \<in> set (linearizedBaseContracts (nodes h this))
              \<longrightarrow> isSubclassOf h this this = Inr True)"
proof -
  have eq: "\<And>x. (VNode x \<in> (\<lambda>i. nodeOrUndefined (locate h c i))
                      ` set (linearizedBaseContracts (nodes h this)))
       = (\<exists>i\<in>set (linearizedBaseContracts (nodes h this)). locate h c i = Some x)"
    by (auto simp: nodeOrUndefined_def image_iff split: option.splits)
  have view: "vLinearizedBaseContracts h this =
      Inr (map (\<lambda>i. nodeOrUndefined (locate h c i)) (linearizedBaseContracts (nodes h this)))"
    using assms by (simp add: vLinearizedBaseContracts_def requiredContext_def)
  have main: "\<And>x. isSubclassOf h this x =
           Inr (\<exists>i\<in>set (linearizedBaseContracts (nodes h this)). locate h c i = Some x)"
    using view eq by (simp add: isSubclassOf_def)
  show ?thesis using main view by (auto simp: contains_def)
qed

theorem isSubclassOf_linearization_witness:
  "nodeContext (nodes documentedHeap 1) = Some 0
   \<and> linearizedBaseContracts (nodes documentedHeap 1) = [1]
   \<and> isSubclassOf documentedHeap 1 1 = Inr True
   \<and> isSubclassOf documentedHeap 1 0 = Inr False"
proof -
  have ctx: "nodeContext (nodes documentedHeap 1) = Some 0" by code_simp
  have lin: "linearizedBaseContracts (nodes documentedHeap 1) = [1]" by code_simp
  have reg: "contains documentedHeap 0 1" by code_simp
  have own: "nid (nodes documentedHeap 1) = 1" by code_simp
  have loc: "locate documentedHeap 0 1 = Some 1" by code_simp
  from isSubclassOf_linearization[OF ctx, of 1] reg lin own
  have self: "isSubclassOf documentedHeap 1 1 = Inr True" by (simp add: loc)
  from isSubclassOf_linearization[OF ctx, of 0] lin
  have unit: "isSubclassOf documentedHeap 1 0 = Inr False" by (simp add: loc)
  from ctx lin self unit show ?thesis by simp
qed

subsection \<open>The accessors of \<open>documentation\<close>\<close>

lemma find_filter_hd: "find P xs = (case filter P xs of [] \<Rightarrow> None | x # ys \<Rightarrow> Some x)"
  by (induction xs) auto

lemma filter_single_mem: "filter P xs = [x] \<Longrightarrow> x \<in> set xs \<and> P x"
proof -
  assume "filter P xs = [x]"
  then have "x \<in> set (filter P xs)" by simp
  then show ?thesis by simp
qed

lemma filter_single_remove1:
  "filter P xs = [x] \<Longrightarrow> filter P (remove1 x xs) = []"
proof (induction xs)
  case Nil
  then show ?case by simp
next
  case (Cons a xs)
  have "P x" using filter_single_mem[OF Cons.prems] by simp
  with Cons show ?case by (auto split: if_splits)
qed

lemma filter_single_replaceFirst:
  "filter P xs = [x] \<Longrightarrow> P y \<Longrightarrow> filter P (replaceFirst y x xs) = [y]"
proof (induction xs)
  case Nil
  then show ?case by simp
next
  case (Cons a xs)
  have "P x" using filter_single_mem[OF Cons.prems(1)] by simp
  with Cons show ?case by (auto split: if_splits)
qed

lemma replaceFirst_mem: "x \<in> set xs \<Longrightarrow> y \<in> set (replaceFirst y x xs)"
  by (induction xs) auto

lemma replaceFirst_same: "replaceFirst x x xs = xs"
  by (induction xs) auto

lemma documentation_filter:
  "documentation h r =
     (if docString (nodes h r) \<noteq> VUndefined then docString (nodes h r)
      else case filter (isDoc h) (children (nodes h r)) of
             [] \<Rightarrow> VUndefined
           | x # xs \<Rightarrow> VNode x)"
proof -
  have "(\<lambda>c. kind (nodes h c) = ''StructuredDocumentation'') = isDoc h"
    by (auto simp: isDoc_def)
  then show ?thesis
    by (simp add: documentation_def find_filter_hd nodeOrUndefined_def split: list.splits)
qed

lemma isDoc_updNode:
  "(\<And>n. kind (f n) = kind n) \<Longrightarrow> isDoc (updNode h r f) = isDoc h"
  by (auto simp: isDoc_def updNode_def fun_eq_iff)

lemma instanceOf_doc:
  "instanceOf h v ''StructuredDocumentation'' = (\<exists>n. v = VNode n \<and> isDoc h n)"
  by (auto simp: instanceOf_def isDoc_def split: jsval.splits)

lemma docWellFormed_cases:
  assumes "docWellFormed h this"
  obtains (none) "filter (isDoc h) (children (nodes h this)) = []"
    | (one) p where "docString (nodes h this) = VUndefined"
        "filter (isDoc h) (children (nodes h this)) = [p]"
  using assms
  by (auto simp: docWellFormed_def Suc_le_eq length_Suc_conv le_Suc_eq split: jsval.splits)

lemma set_documentation_node:
  assumes wf: "docWellFormed h this" and n: "isDoc h n"
  shows "fst (set_documentation h this (VNode n)) = Inr ()
       \<and> documentation (snd (set_documentation h this (VNode n))) this = VNode n
       \<and> n \<in> set (children (nodes (snd (set_documentation h this (VNode n))) this))
       \<and> children (nodes (snd (set_documentation h this (VNode n))) this) =
            (case documentation h this of
               VNode prev \<Rightarrow> replaceFirst n prev (children (nodes h this))
             | _ \<Rightarrow> n # children (nodes h this))
       \<and> isDoc (snd (set_documentation h this (VNode n))) = isDoc h
       \<and> docString (nodes (snd (set_documentation h this (VNode n))) this) = VUndefined
       \<and> filter (isDoc h) (children (nodes (snd (set_documentation h this (VNode n))) this)) = [n]"
proof -
  let ?cs = "children (nodes h this)"
  let ?h1 = "updNode h this (\<lambda>n. n\<lparr>docString := VUndefined\<rparr>)"
  have kthis: "kind (nodes h this) = ''ContractDefinition''"
    using wf by (simp add: docWellFormed_def)
  have nthis: "n \<noteq> this" using kthis n by (auto simp: isDoc_def)
  have doc1: "isDoc ?h1 = isDoc h" by (rule isDoc_updNode) simp
  have cs1: "children (nodes ?h1 this) = ?cs" by (simp add: updNode_def)
  have ds1: "docString (nodes ?h1 this) = VUndefined" by (simp add: updNode_def)
  from wf show ?thesis
  proof (cases rule: docWellFormed_cases)
    case none
    have old: "\<not> instanceOf h (documentation h this) ''StructuredDocumentation''"
      using wf none
      by (auto simp: documentation_filter instanceOf_doc docWellFormed_def isDoc_def
          split: jsval.splits)
    have old1: "\<not> instanceOf ?h1 (documentation h this) ''StructuredDocumentation''"
      using old doc1 by (simp add: instanceOf_doc)
    have notnode: "\<And>prev. documentation h this \<noteq> VNode prev"
      using wf none by (auto simp: documentation_filter docWellFormed_def split: jsval.splits)
    have res: "set_documentation h this (VNode n) = insertAtBeginning ?h1 this n"
      using n old1 notnode
      by (cases "documentation h this")
        (auto simp add: set_documentation_def Let_def instanceOf_doc)
    have isd: "isDoc (snd (insertAtBeginning ?h1 this n)) = isDoc h"
      by (auto simp: insertAtBeginning_def Let_def isDoc_def updNode_def fun_eq_iff)
    have ch: "children (nodes (snd (insertAtBeginning ?h1 this n)) this) = n # ?cs"
      using nthis by (simp add: insertAtBeginning_def Let_def updNode_def)
    have ds: "docString (nodes (snd (insertAtBeginning ?h1 this n)) this) = VUndefined"
      using nthis by (simp add: insertAtBeginning_def Let_def updNode_def)
    have "documentation (snd (insertAtBeginning ?h1 this n)) this = VNode n"
      using n by (simp add: documentation_filter isd ch ds)
    moreover have "(case documentation h this of
               VNode prev \<Rightarrow> replaceFirst n prev ?cs | _ \<Rightarrow> n # ?cs) = n # ?cs"
      using notnode by (cases "documentation h this") auto
    ultimately show ?thesis
      using res ch isd ds n none by (simp add: insertAtBeginning_def Let_def)
  next
    case (one p)
    have pmem: "p \<in> set ?cs" and pdoc: "isDoc h p"
      using filter_single_mem[OF one(2)] by auto
    have old: "documentation h this = VNode p"
      using one by (simp add: documentation_filter)
    have pthis: "p \<noteq> this" using kthis pdoc by (auto simp: isDoc_def)
    show ?thesis
    proof (cases "n = p")
      case True
      have res: "set_documentation h this (VNode n) = (Inr (), ?h1)"
        using n old True pdoc doc1 by (simp add: set_documentation_def Let_def instanceOf_doc)
      have "documentation ?h1 this = VNode n"
        using one True by (simp add: documentation_filter doc1 cs1 ds1)
      then show ?thesis
        using res old True pmem cs1 doc1 ds1 one(2) by (simp add: replaceFirst_same)
    next
      case False
      have res: "set_documentation h this (VNode n) = replaceChild ?h1 this n p"
        using n old False pdoc doc1 by (simp add: set_documentation_def Let_def instanceOf_doc)
      let ?h2 = "snd (replaceChild ?h1 this n p)"
      have ok: "fst (replaceChild ?h1 this n p) = Inr ()"
        using pmem cs1 by (simp add: replaceChild_def Let_def)
      have isd: "isDoc ?h2 = isDoc h"
        using pmem cs1 by (auto simp: replaceChild_def Let_def isDoc_def updNode_def fun_eq_iff)
      have ch: "children (nodes ?h2 this) = replaceFirst n p ?cs"
        using pmem nthis pthis by (simp add: replaceChild_def Let_def updNode_def)
      have ds: "docString (nodes ?h2 this) = VUndefined"
        using pmem nthis pthis by (simp add: replaceChild_def Let_def updNode_def)
      have "documentation ?h2 this = VNode n"
        using n filter_single_replaceFirst[OF one(2), of n]
        by (simp add: documentation_filter isd ch ds)
      then show ?thesis
        using res ok ch old isd ds replaceFirst_mem[OF pmem, of n]
          filter_single_replaceFirst[OF one(2) n]
        by simp
    qed
  qed
qed

lemma set_documentation_text:
  assumes wf: "docWellFormed h this" and v: "v = VUndefined \<or> (\<exists>s. v = VStr s)"
  shows "fst (set_documentation h this v) = Inr ()
       \<and> documentation (snd (set_documentation h this v)) this = v
       \<and> filter (isDoc (snd (set_documentation h this v)))
            (children (nodes (snd (set_documentation h this v)) this)) = []
       \<and> children (nodes (snd (set_documentation h this v)) this) =
            (case documentation h this of
               VNode prev \<Rightarrow> remove1 prev (children (nodes h this))
             | _ \<Rightarrow> children (nodes h this))
       \<and> isDoc (snd (set_documentation h this v)) = isDoc h
       \<and> docString (nodes (snd (set_documentation h this v)) this) = v"
proof -
  let ?cs = "children (nodes h this)"
  have kthis: "kind (nodes h this) = ''ContractDefinition''"
    using wf by (simp add: docWellFormed_def)
  have vnot: "\<not> instanceOf h v ''StructuredDocumentation''"
    using v by (auto simp: instanceOf_doc)
  from wf show ?thesis
  proof (cases rule: docWellFormed_cases)
    case none
    have notnode: "\<And>prev. documentation h this \<noteq> VNode prev"
      using wf none by (auto simp: documentation_filter docWellFormed_def split: jsval.splits)
    define h' where "h' = updNode h this (\<lambda>n. n\<lparr>docString := v\<rparr>)"
    have res: "set_documentation h this v = (Inr (), h')"
      unfolding h'_def using vnot notnode
      by (cases "documentation h this") (auto simp add: set_documentation_def Let_def)
    have isd: "isDoc h' = isDoc h" unfolding h'_def by (rule isDoc_updNode) simp
    have ch: "children (nodes h' this) = ?cs" unfolding h'_def by (simp add: updNode_def)
    have ds: "docString (nodes h' this) = v" unfolding h'_def by (simp add: updNode_def)
    have "documentation h' this = v"
      using none by (simp add: documentation_filter isd ch ds)
    moreover have "(case documentation h this of
               VNode prev \<Rightarrow> remove1 prev ?cs | _ \<Rightarrow> ?cs) = ?cs"
      using notnode by (cases "documentation h this") auto
    ultimately show ?thesis using res none isd ch ds by simp
  next
    case (one p)
    have pmem: "p \<in> set ?cs" and pdoc: "isDoc h p"
      using filter_single_mem[OF one(2)] by auto
    have old: "documentation h this = VNode p"
      using one by (simp add: documentation_filter)
    have pthis: "p \<noteq> this" using kthis pdoc by (auto simp: isDoc_def)
    let ?hr = "updNode (updNode h this (\<lambda>n. n\<lparr>children := remove1 p (children n)\<rparr>)) p
                 (\<lambda>n. n\<lparr>parent := None\<rparr>)"
    define h' where "h' = updNode ?hr this (\<lambda>n. n\<lparr>docString := v\<rparr>)"
    have rem: "removeChild h this p = (Inr (), ?hr)"
      using pmem by (simp add: removeChild_def Let_def)
    have oldinst: "instanceOf h (VNode p) ''StructuredDocumentation''"
      using pdoc by (simp add: instanceOf_doc)
    have res: "set_documentation h this v = (Inr (), h')"
      unfolding h'_def using vnot old oldinst rem by (simp add: set_documentation_def Let_def)
    have isd: "isDoc h' = isDoc h"
      unfolding h'_def by (auto simp: isDoc_def updNode_def fun_eq_iff)
    have ch: "children (nodes h' this) = remove1 p ?cs"
      unfolding h'_def using pthis by (simp add: updNode_def)
    have ds: "docString (nodes h' this) = v"
      unfolding h'_def by (simp add: updNode_def)
    have "documentation h' this = v"
      using filter_single_remove1[OF one(2)] by (simp add: documentation_filter isd ch ds)
    then show ?thesis
      using res ch old isd ds filter_single_remove1[OF one(2)] by simp
  qed
qed

text \<open>The assignment keeps the shape it relies on.\<close>

lemma set_documentation_keeps_shape:
  assumes "docWellFormed h this" and "docValue h v"
  shows "docWellFormed (snd (set_documentation h this v)) this"
proof -
  have kind': "kind (nodes (snd (set_documentation h this v)) this) = ''ContractDefinition''"
    if "isDoc (snd (set_documentation h this v)) = isDoc h"
  proof -
    have "kind (nodes h this) = ''ContractDefinition''"
      using assms(1) by (simp add: docWellFormed_def)
    moreover have "\<not> isDoc h this" using calculation by (simp add: isDoc_def)
    ultimately show ?thesis
      using assms(1) by (cases v) (auto simp: set_documentation_def Let_def updNode_def
        insertAtBeginning_def replaceChild_def removeChild_def instanceOf_def isDoc_def
        split: jsval.splits if_splits prod.splits sum.splits)
  qed
  show ?thesis
  proof (cases v)
    case (VNode n)
    then have n: "isDoc h n" using assms(2) by (simp add: docValue_def)
    note L = set_documentation_node[OF assms(1) n]
    have isd: "isDoc (snd (set_documentation h this v)) = isDoc h"
      using L unfolding VNode by blast
    have ds: "docString (nodes (snd (set_documentation h this v)) this) = VUndefined"
      using L unfolding VNode by blast
    have flt: "filter (isDoc h) (children (nodes (snd (set_documentation h this v)) this)) = [n]"
      using L unfolding VNode by blast
    show ?thesis using kind'[OF isd] by (simp add: docWellFormed_def isd ds flt)
  next
    case VUndefined
    then have tv: "v = VUndefined \<or> (\<exists>s. v = VStr s)" by simp
    note L = set_documentation_text[OF assms(1) tv]
    have isd: "isDoc (snd (set_documentation h this v)) = isDoc h" using L by blast
    have ds: "docString (nodes (snd (set_documentation h this v)) this) = v" using L by blast
    have flt: "filter (isDoc (snd (set_documentation h this v)))
                 (children (nodes (snd (set_documentation h this v)) this)) = []"
      using L by blast
    show ?thesis unfolding docWellFormed_def ds flt using kind'[OF isd] VUndefined by simp
  next
    case (VStr s)
    then have tv: "v = VUndefined \<or> (\<exists>s. v = VStr s)" by simp
    note L = set_documentation_text[OF assms(1) tv]
    have isd: "isDoc (snd (set_documentation h this v)) = isDoc h" using L by blast
    have ds: "docString (nodes (snd (set_documentation h this v)) this) = v" using L by blast
    have flt: "filter (isDoc (snd (set_documentation h this v)))
                 (children (nodes (snd (set_documentation h this v)) this)) = []"
      using L by blast
    show ?thesis unfolding docWellFormed_def ds flt using kind'[OF isd] VStr by simp
  qed (use assms(2) in \<open>simp_all add: docValue_def\<close>)
qed

text \<open>
  Claim C9, as stated, fails: on a contract with the \<open>StructuredDocumentation\<close>
  children \<open>2\<close> and \<open>3\<close> the assignment \<open>documentation := undefined\<close> returns, and
  reading \<open>documentation\<close> afterwards gives the node \<open>3\<close>, not \<open>undefined\<close>; a
  \<open>StructuredDocumentation\<close> is still among the children.
\<close>

theorem second_documentation_survives:
  "kind (nodes twoDocsHeap 1) = ''ContractDefinition''
   \<and> children (nodes twoDocsHeap 1) = [2, 3]
   \<and> documentation twoDocsHeap 1 = VNode 2
   \<and> fst (set_documentation twoDocsHeap 1 VUndefined) = Inr ()
   \<and> documentation (snd (set_documentation twoDocsHeap 1 VUndefined)) 1 = VNode 3
   \<and> documentation (snd (set_documentation twoDocsHeap 1 VUndefined)) 1 \<noteq> VUndefined
   \<and> children (nodes (snd (set_documentation twoDocsHeap 1 VUndefined)) 1) = [3]"
  by code_simp

text \<open>
  Claim C9, amended. For every contract \<open>c\<close> that has at most one
  \<open>StructuredDocumentation\<close> among its children, and none while a documentation string
  is stored, and every value \<open>v\<close> that is a string, a \<open>StructuredDocumentation\<close> node or
  \<open>undefined\<close>: the assignment \<open>c.documentation := v\<close> returns, and reading
  \<open>c.documentation\<close> afterwards gives \<open>v\<close>. When \<open>v\<close> is a node it is a child of \<open>c\<close>
  afterwards: it stands in the place of the previous documentation node when there
  was one (the list is unchanged when \<open>v\<close> is that node), and at the beginning of the
  list otherwise. When \<open>v\<close> is a string or \<open>undefined\<close> the previous documentation node,
  if there was one, is removed, and no \<open>StructuredDocumentation\<close> is left among the
  children.
\<close>

theorem set_documentation_then_get:
  assumes "docWellFormed h this" and "docValue h v"
  shows "fst (set_documentation h this v) = Inr ()
       \<and> documentation (snd (set_documentation h this v)) this = v
       \<and> children (nodes (snd (set_documentation h this v)) this) =
           (case v of
              VNode n \<Rightarrow>
                (case documentation h this of
                   VNode prev \<Rightarrow> replaceFirst n prev (children (nodes h this))
                 | _ \<Rightarrow> n # children (nodes h this))
            | _ \<Rightarrow>
                (case documentation h this of
                   VNode prev \<Rightarrow> remove1 prev (children (nodes h this))
                 | _ \<Rightarrow> children (nodes h this)))
       \<and> (case v of
             VNode n \<Rightarrow> n \<in> set (children (nodes (snd (set_documentation h this v)) this))
           | _ \<Rightarrow> filter (isDoc (snd (set_documentation h this v)))
                    (children (nodes (snd (set_documentation h this v)) this)) = [])"
proof (cases v)
  case (VNode n)
  then have "isDoc h n" using assms(2) by (simp add: docValue_def)
  from set_documentation_node[OF assms(1) this] show ?thesis
    unfolding VNode jsval.case by blast
next
  case VUndefined
  from set_documentation_text[OF assms(1), of VUndefined] show ?thesis
    unfolding VUndefined jsval.case by blast
next
  case (VStr s)
  from set_documentation_text[OF assms(1), of "VStr s"] show ?thesis
    unfolding VStr jsval.case by blast
qed (use assms(2) in \<open>simp_all add: docValue_def\<close>)

theorem set_documentation_then_get_witness:
  "docWellFormed documentedHeap 1
   \<and> documentation documentedHeap 1 = VNode 2
   \<and> fst (set_documentation documentedHeap 1 (VStr ''text'')) = Inr ()
   \<and> documentation (snd (set_documentation documentedHeap 1 (VStr ''text''))) 1 = VStr ''text''
   \<and> children (nodes (snd (set_documentation documentedHeap 1 (VStr ''text''))) 1) = []"
proof -
  have wf: "docWellFormed documentedHeap 1" by code_simp
  have val: "docValue documentedHeap (VStr ''text'')" by code_simp
  have old: "documentation documentedHeap 1 = VNode 2" by code_simp
  have cs: "children (nodes documentedHeap 1) = [2]" by code_simp
  from set_documentation_then_get[OF wf val] old cs wf show ?thesis by simp
qed


section \<open>Properties of reading compiler output\<close>

subsection \<open>Selection of the typed-AST field\<close>






subsection \<open>Detection of compile errors\<close>

lemma digitChar_digit: "d < 10 \<Longrightarrow> digitChar d \<in> set ''0123456789''"
  unfolding digitChar_def by (rule nth_mem) simp

lemma decimal_digits: "set (decimal n) \<subseteq> set ''0123456789''"
proof (induction n rule: decimal.induct)
  case (1 n)
  show ?case
  proof (cases "n < 10")
    case True
    then show ?thesis using digitChar_digit[of n] by (subst decimal.simps) simp
  next
    case False
    have "digitChar (n mod 10) \<in> set ''0123456789''" by (rule digitChar_digit) simp
    with False 1 show ?thesis by (subst decimal.simps) simp
  qed
qed

lemma severity_not_index: "''severity'' \<notin> set (arrayKeys xs)"
proof
  assume "''severity'' \<in> set (arrayKeys xs)"
  then obtain n where n: "decimal n = ''severity''" by (auto simp: arrayKeys_def)
  have "set (decimal n) \<subseteq> set ''0123456789''" by (rule decimal_digits)
  then have "set ''severity'' \<subseteq> set ''0123456789''" unfolding n .
  then show False by simp
qed

lemma getProp_array_severity: "getProp (JArr xs) ''severity'' = Inr None"
proof -
  have "map_of (zip (arrayKeys xs) xs) ''severity'' = None"
    using severity_not_index[of xs] by (auto simp: map_of_eq_None_iff dest: set_zip_leftD)
  then show ?thesis by (simp add: getProp_def)
qed

lemma detectLoop_step:
  "detectLoop (e # errs) =
     (if e = JNull then Inl (TypeError PropertyOfNull)
      else case detectLoop errs of
             Inl x \<Rightarrow> Inl x
           | Inr rest \<Rightarrow> Inr ((if isCompileError e then [reportedAs e] else []) @ rest))"
proof (cases e)
  case JNull
  then show ?thesis by (simp add: getProp_def)
next
  case (JBool b)
  then show ?thesis by (simp add: isCompileError_def split: sum.splits)
next
  case (JNum i)
  then show ?thesis by (simp add: isCompileError_def split: sum.splits)
next
  case (JStr s)
  then show ?thesis by (simp add: isCompileError_def reportedAs_def split: sum.splits)
next
  case (JArr xs)
  then show ?thesis
    by (simp add: isCompileError_def getProp_array_severity split: sum.splits)
next
  case (JObj kvs)
  then show ?thesis
    by (simp add: isCompileError_def reportedAs_def getProp_def split: sum.splits)
qed

lemma detectLoop_no_null:
  "JNull \<notin> set errs \<Longrightarrow> detectLoop errs = Inr (map reportedAs (filter isCompileError errs))"
  by (induction errs) (auto simp add: detectLoop_step simp del: detectLoop.simps(2))

lemma detectLoop_null:
  "JNull \<in> set errs \<Longrightarrow> detectLoop errs = Inl (TypeError PropertyOfNull)"
  by (induction errs)
    (auto simp add: detectLoop_step simp del: detectLoop.simps(2) split: sum.splits)

text \<open>
  Claim C6, as stated, fails: for an entry that is an object with severity \<open>error\<close>
  the detection returns the \<open>formattedMessage\<close> of the entry, not the entry.
\<close>

theorem detection_returns_message_not_entry:
  "getProp failedOutput ''errors'' =
     Inr (Some (JArr [JObj [(''severity'', JStr ''warning''),
                            (''formattedMessage'', JStr ''a.sol:1:1: Warning: unused'')],
                      modernError]))
   \<and> isCompileError modernError
   \<and> detectCompileErrors failedOutput = Inr [Some (JStr ''a.sol:2:1: TypeError: bad'')]
   \<and> detectCompileErrors failedOutput \<noteq> Inr [Some modernError]"
  by code_simp

text \<open>
  Claim C6, amended. When the top-level \<open>errors\<close> is an array, compile-error
  detection returns, in the order of the array, one item for each entry that is an
  object with severity \<open>error\<close> (the item is the \<open>formattedMessage\<close> of the entry) or a
  string in which \<open>Warning\<close> does not occur (the item is the string), provided no
  entry is \<open>null\<close> (with a \<open>null\<close> entry the detection throws a \<open>TypeError\<close>). When the
  input is AST-carrying and the detected list is not empty, \<open>compileJsonData\<close> throws
  \<open>CompileFailedError\<close> with that list and no compiler version, and returns nothing.
\<close>

theorem detectCompileErrors_reports_selected_entries:
  assumes "getProp dat ''errors'' = Inr (Some (JArr errs))"
  shows "detectCompileErrors dat =
           (if JNull \<in> set errs then Inl (TypeError PropertyOfNull)
            else Inr (map reportedAs (filter isCompileError errs)))
       \<and> (\<forall>sources detected.
             isObject dat \<and> getProp dat ''sources'' = Inr (Some sources) \<and> isObject sources
             \<and> consistentlyContainsOneOf sources astProperties = Inr True
             \<and> detectCompileErrors dat = Inr detected \<and> detected \<noteq> [] \<longrightarrow>
             compileJsonData compile select fileName dat
               = Inl (CompileFailedError [(None, detected)]))"
proof -
  have "detectCompileErrors dat = detectLoop errs"
    using assms by (simp add: detectCompileErrors_def)
  then have first: "detectCompileErrors dat =
           (if JNull \<in> set errs then Inl (TypeError PropertyOfNull)
            else Inr (map reportedAs (filter isCompileError errs)))"
    by (simp add: detectLoop_no_null detectLoop_null)
  have second: "compileJsonData compile select fileName dat
               = Inl (CompileFailedError [(None, detected)])"
    if "isObject dat" "getProp dat ''sources'' = Inr (Some sources)" "isObject sources"
       "consistentlyContainsOneOf sources astProperties = Inr True"
       "detectCompileErrors dat = Inr detected" "detected \<noteq> []" for sources detected
    using that by (simp add: compileJsonData_def)
  show ?thesis using first second by blast
qed

theorem detectCompileErrors_reports_selected_entries_witness:
  "detectCompileErrors legacyFailedOutput = Inr [Some (JStr ''a.sol:2:1: Error: bad'')]
   \<and> compileJsonData noCompiler noVersions ''out.json'' legacyFailedOutput
       = Inl (CompileFailedError [(None, [Some (JStr ''a.sol:2:1: Error: bad'')])])"
proof -
  let ?errs = "[JStr ''a.sol:1:1: Warning: unused'', JStr ''a.sol:2:1: Error: bad'']"
  let ?sources = "JObj [(''a.sol'', JObj [(''legacyAST'', JObj [(''name'', JStr ''SourceUnit'')])])]"
  have errs: "getProp legacyFailedOutput ''errors'' = Inr (Some (JArr ?errs))" by code_simp
  have nonull: "JNull \<notin> set ?errs" by simp
  have sel: "map reportedAs (filter isCompileError ?errs) = [Some (JStr ''a.sol:2:1: Error: bad'')]"
    by code_simp
  have obj: "isObject legacyFailedOutput" by code_simp
  have src: "getProp legacyFailedOutput ''sources'' = Inr (Some ?sources)" by code_simp
  have sobj: "isObject ?sources" by code_simp
  have ast: "consistentlyContainsOneOf ?sources astProperties = Inr True" by code_simp
  note T = detectCompileErrors_reports_selected_entries[OF errs, of noCompiler noVersions "''out.json''"]
  from T nonull sel have det:
    "detectCompileErrors legacyFailedOutput = Inr [Some (JStr ''a.sol:2:1: Error: bad'')]"
    by simp
  from T obj src sobj ast det have
    "compileJsonData noCompiler noVersions ''out.json'' legacyFailedOutput
       = Inl (CompileFailedError [(None, [Some (JStr ''a.sol:2:1: Error: bad'')])])"
    by blast
  with det show ?thesis by simp
qed

section \<open>Copying a subtree: fresh ids, same shape, another render\<close>






text \<open>
  The copies that the unit tests expect: of the enum definition, of the event
  definition, and of the struct definition, where the reference to the struct is
  rewritten and the reference to the contract outside the subtree is kept.
\<close>

lemma copy_as_in_tests:
  "copy enumContext enumTree = Inr (enumCopy, \<lparr>nextId = 5, registered = [1, 2, 3, 4]\<rparr>)"
  "copy eventContext eventTree
     = Inr (eventCopy, \<lparr>nextId = 7, registered = [1, 2, 3, 4, 5, 6]\<rparr>)"
  "copy structContext structTree
     = Inr (structCopy, \<lparr>nextId = 9, registered = [1, 2, 3, 4, 5, 6, 7, 8]\<rparr>)"
  by code_simp+


text \<open>
  The hypothesis on the counter below is needed: with a counter that was passed by a
  registered id the copy fails.
\<close>

lemma copy_stale_counter:
  "ownedBy \<lparr>nextId = 1, registered = [1, 2]\<rparr> enumTree
   \<and> copy \<lparr>nextId = 1, registered = [1, 2]\<rparr> enumTree = Inl (Error (DuplicateId 1))"
  by code_simp



end
